theory Spec2Isabelle
  imports Main "HOL-Library.Word"
begin


section \<open>JavaScript values as the backend receives them\<close>

text \<open>
  The backend (backend/server.js) parses the request body with \<^verbatim>\<open>express.json()\<close>, so
  every value it inspects is a JSON value. A number is carried as the text that
  \<^verbatim>\<open>String(n)\<close> gives for it (so \<^verbatim>\<open>0\<close> and \<^verbatim>\<open>-0\<close> are both \<open>''0''\<close>); the
  floating-point arithmetic behind that text is not modelled. Strings are lists of
  8-bit characters. \<open>JUndefined\<close> is what reading a missing property gives.
\<close>

datatype jv =
    JUndefined
  | JNull
  | JBool bool
  | JNum string
  | JStr string
  | JArr "jv list"
  | JObj "(string \<times> jv) list"

datatype error =
    TypeErrorInOperator        \<comment> \<open>\<^verbatim>\<open>'value' in null\<close>\<close>
  | TypeErrorReadProperty      \<comment> \<open>a property read on \<^verbatim>\<open>null\<close> or \<^verbatim>\<open>undefined\<close>\<close>
  | TypeErrorToPrimitive       \<comment> \<open>\<^verbatim>\<open>String(o)\<close> for an object whose \<^verbatim>\<open>toString\<close> is not callable\<close>
  | TypeErrorArgument          \<comment> \<open>a library call given an argument of the wrong type\<close>
  | EISDIR "string list"
  | ENOENT "string list"
  | EEXIST "string list"
  | CompilerNotFound           \<comment> \<open>\<^verbatim>\<open>new Error('xu_compiler.py ... ')\<close>\<close>

text \<open>Truthiness, as \<^verbatim>\<open>!x\<close> and \<^verbatim>\<open>x || y\<close> test it.\<close>

fun truthy :: "jv \<Rightarrow> bool" where
  "truthy JUndefined = False"
| "truthy JNull = False"
| "truthy (JBool b) = b"
| "truthy (JNum s) = (s \<noteq> ''0'')"
| "truthy (JStr s) = (s \<noteq> [])"
| "truthy (JArr xs) = True"
| "truthy (JObj kvs) = True"

fun isArray :: "jv \<Rightarrow> bool" where
  "isArray (JArr xs) = True"
| "isArray v = False"

text \<open>
  \<^verbatim>\<open>v.k\<close> for a key \<open>k\<close> that no prototype defines (the handler reads only
  \<^verbatim>\<open>files\<close>, \<^verbatim>\<open>entry\<close>, \<^verbatim>\<open>stdin\<close>, \<^verbatim>\<open>inputs\<close>, \<^verbatim>\<open>name\<close>, \<^verbatim>\<open>content\<close> and
  \<^verbatim>\<open>value\<close>): the object's own property, the last one when the JSON text repeats a
  key; \<^verbatim>\<open>undefined\<close> on every other value; a TypeError on \<^verbatim>\<open>null\<close> and
  \<^verbatim>\<open>undefined\<close>.
\<close>

fun get_prop :: "jv \<Rightarrow> string \<Rightarrow> error + jv" where
  "get_prop JUndefined k = Inl TypeErrorReadProperty"
| "get_prop JNull k = Inl TypeErrorReadProperty"
| "get_prop (JObj kvs) k = Inr (case map_of (rev kvs) k of Some v \<Rightarrow> v | None \<Rightarrow> JUndefined)"
| "get_prop v k = Inr JUndefined"

text \<open>The same read where the receiver is already known to be truthy.\<close>

definition field :: "jv \<Rightarrow> string \<Rightarrow> jv" where
  "field v k = (case get_prop v k of Inr x \<Rightarrow> x | Inl e \<Rightarrow> JUndefined)"

text \<open>\<^verbatim>\<open>typeof v === 'object'\<close> and \<^verbatim>\<open>'value' in v\<close>.\<close>

fun typeof_object :: "jv \<Rightarrow> bool" where
  "typeof_object JNull = True"
| "typeof_object (JArr xs) = True"
| "typeof_object (JObj kvs) = True"
| "typeof_object v = False"

fun in_operator :: "string \<Rightarrow> jv \<Rightarrow> error + bool" where
  "in_operator k (JObj kvs) = Inr (k \<in> fst ` set kvs)"
| "in_operator k (JArr xs) = Inr False"
| "in_operator k v = Inl TypeErrorInOperator"

text \<open>
  \<^verbatim>\<open>String(v)\<close>. An array is its elements joined by commas, \<^verbatim>\<open>null\<close> and
  \<^verbatim>\<open>undefined\<close> elements giving the empty string; an object parsed from JSON is
  \<^verbatim>\<open>[object Object]\<close>, unless it has an own key \<^verbatim>\<open>toString\<close>, whose value no JSON text
  can make callable.
\<close>

fun js_String :: "jv \<Rightarrow> error + string"
  and js_join_comma :: "jv list \<Rightarrow> error + string" where
  "js_String JUndefined = Inr ''undefined''"
| "js_String JNull = Inr ''null''"
| "js_String (JBool b) = Inr (if b then ''true'' else ''false'')"
| "js_String (JNum s) = Inr s"
| "js_String (JStr s) = Inr s"
| "js_String (JArr xs) = js_join_comma xs"
| "js_String (JObj kvs) =
     (if ''toString'' \<in> fst ` set kvs then Inl TypeErrorToPrimitive
      else Inr ''[object Object]'')"
| "js_join_comma [] = Inr []"
| "js_join_comma (x # xs) =
     (case (if x = JNull \<or> x = JUndefined then Inr [] else js_String x) of
        Inl e \<Rightarrow> Inl e
      | Inr s \<Rightarrow>
          (if xs = [] then Inr s
           else (case js_join_comma xs of Inl e \<Rightarrow> Inl e | Inr t \<Rightarrow> Inr (s @ '','' @ t))))"

section \<open>Strings: lines, blanks, the stdin heuristic\<close>

definition LF :: char where "LF = CHR 0x0A"
definition CR :: char where "CR = CHR 0x0D"

text \<open>\<^verbatim>\<open>s.split(/\r?\n/)\<close>: a line break is a line feed, with the carriage return before it if there is one.\<close>

fun js_split_lines :: "string \<Rightarrow> string list" where
  "js_split_lines [] = [[]]"
| "js_split_lines [c] = (if c = LF then [[], []] else [[c]])"
| "js_split_lines (c # d # cs) =
     (if c = LF then [] # js_split_lines (d # cs)
      else if c = CR \<and> d = LF then [] # js_split_lines cs
      else (case js_split_lines (d # cs) of
              l # ls \<Rightarrow> (c # l) # ls
            | [] \<Rightarrow> [[c]]))"

text \<open>\<^verbatim>\<open>s.split(/\r?\n/).filter(Boolean)\<close>: the lines that are not empty.\<close>

definition error_lines :: "string \<Rightarrow> string list" where
  "error_lines s = filter (\<lambda>l. l \<noteq> []) (js_split_lines s)"

text \<open>The white space that \<^verbatim>\<open>trim()\<close> removes and \<^verbatim>\<open>\s\<close> matches, among 8-bit characters.\<close>

definition js_space :: "char \<Rightarrow> bool" where
  "js_space c = (c \<in> {CHR 0x09, CHR 0x0A, CHR 0x0B, CHR 0x0C, CHR 0x0D, CHR 0x20, CHR 0xA0})"

text \<open>\<^verbatim>\<open>s.trim() === ''\<close>.\<close>

definition blank :: "string \<Rightarrow> bool" where
  "blank s = list_all js_space s"

text \<open>ASCII case folding, for the \<^verbatim>\<open>i\<close> flag.\<close>

definition lower :: "char \<Rightarrow> char" where
  "lower c =
     (if (65::nat) \<le> of_char c \<and> of_char c \<le> (90::nat) then char_of (of_char c + (32::nat)) else c)"

text \<open>A match of \<^verbatim>\<open>word\s*tail\<close> at the start of \<open>s\<close>, letters compared without case.\<close>

definition match_here :: "string \<Rightarrow> string \<Rightarrow> string \<Rightarrow> bool" where
  "match_here word tail s =
     (length word \<le> length s \<and> map lower (take (length word) s) = word \<and>
      take (length tail) (dropWhile js_space (drop (length word) s)) = tail)"

fun suffixes_of :: "string \<Rightarrow> string list" where
  "suffixes_of [] = [[]]"
| "suffixes_of (c # cs) = (c # cs) # suffixes_of cs"

text \<open>\<^verbatim>\<open>/scanf\s*\(|fgets\s*\(|getchar\s*\(|read\s*\(|cin\s*<</i.test(src)\<close>.\<close>

definition expectsInput :: "string \<Rightarrow> bool" where
  "expectsInput src =
     list_ex (\<lambda>s. match_here ''scanf'' ''('' s \<or> match_here ''fgets'' ''('' s \<or>
                  match_here ''getchar'' ''('' s \<or> match_here ''read'' ''('' s \<or>
                  match_here ''cin'' ''<<'' s) (suffixes_of src)"

section \<open>Paths and the file system\<close>

text \<open>
  The backend runs on POSIX paths (the container of the README). An absolute, normalised
  path is the list of its segments: \<^verbatim>\<open>/tmp/xu_ab\<close> is \<open>[''tmp'', ''xu_ab'']\<close>, the root
  is \<open>[]\<close>.
\<close>

type_synonym path = "string list"

fun split_on :: "char \<Rightarrow> string \<Rightarrow> string list" where
  "split_on sep [] = [[]]"
| "split_on sep (c # cs) =
     (if c = sep then [] # split_on sep cs
      else (case split_on sep cs of
              l # ls \<Rightarrow> (c # l) # ls
            | [] \<Rightarrow> [[c]]))"

text \<open>
  \<^verbatim>\<open>path.basename(p)\<close>: trailing slashes are ignored, and the result is what follows the
  last slash before them.
\<close>

definition basename :: "string \<Rightarrow> string" where
  "basename p = rev (takeWhile (\<lambda>c. c \<noteq> CHR ''/'') (dropWhile (\<lambda>c. c = CHR ''/'') (rev p)))"

text \<open>
  \<^verbatim>\<open>path.join(dir, name)\<close> for an absolute, normalised \<open>dir\<close>: the two are joined by a
  slash and the result is normalised, segment by segment: an empty segment and \<^verbatim>\<open>.\<close>
  change nothing, \<^verbatim>\<open>..\<close> removes the last segment (none at the root), any other segment
  is appended. (Node keeps a trailing slash of \<open>name\<close>; no name joined here has one.)
\<close>

definition resolve_segment :: "path \<Rightarrow> string \<Rightarrow> path" where
  "resolve_segment st seg =
     (if seg = [] \<or> seg = ''.'' then st
      else if seg = ''..'' then butlast st
      else st @ [seg])"

definition path_join :: "path \<Rightarrow> string \<Rightarrow> path" where
  "path_join dir name = foldl resolve_segment dir (split_on (CHR ''/'') name)"

text \<open>\<^verbatim>\<open>path.join(dir, path.basename(name))\<close>; \<^verbatim>\<open>path.basename\<close> throws on anything but a string.\<close>

definition safe_path :: "path \<Rightarrow> jv \<Rightarrow> error + path" where
  "safe_path dir name =
     (case name of
        JStr n \<Rightarrow> Inr (path_join dir (basename n))
      | _ \<Rightarrow> Inl TypeErrorArgument)"

text \<open>\<^verbatim>\<open>crypto.randomBytes(6).toString('hex')\<close>.\<close>

definition hex_digit :: "nat \<Rightarrow> char" where
  "hex_digit n = ''0123456789abcdef'' ! n"

definition hex_byte :: "8 word \<Rightarrow> string" where
  "hex_byte b = [hex_digit (unat b div 16), hex_digit (unat b mod 16)]"

definition hex :: "8 word list \<Rightarrow> string" where
  "hex bs = concat (map hex_byte bs)"

text \<open>
  The file system: the regular files with their contents, and the directories.
\<close>

record fsys =
  files :: "path \<rightharpoonup> string"
  dirs :: "path set"

definition ancestors_and_self :: "path \<Rightarrow> path list" where
  "ancestors_and_self d = map (\<lambda>n. take n d) [0 ..< Suc (length d)]"

text \<open>\<open>p\<close> is \<open>d\<close> or lies below it.\<close>

definition under :: "path \<Rightarrow> path \<Rightarrow> bool" where
  "under d p = (take (length d) p = d)"

text \<open>
  \<^verbatim>\<open>fs.mkdirSync(dir, { recursive: true })\<close>: the directory and its missing ancestors are
  created; a directory that is already there is accepted as it is, with what it holds;
  a regular file in the way is an error.
\<close>

definition mkdirSync :: "path \<Rightarrow> fsys \<Rightarrow> error + fsys" where
  "mkdirSync d fs =
     (if list_ex (\<lambda>p. files fs p \<noteq> None) (ancestors_and_self d) then Inl (EEXIST d)
      else Inr (fs\<lparr>dirs := dirs fs \<union> set (ancestors_and_self d)\<rparr>))"

text \<open>
  \<^verbatim>\<open>fs.writeFileSync(p, data, 'utf8')\<close>: opening a directory for writing fails, and so
  does creating a file in a directory that does not exist.
\<close>

definition writeFileSync :: "path \<Rightarrow> string \<Rightarrow> fsys \<Rightarrow> error + fsys" where
  "writeFileSync p data fs =
     (if p \<in> dirs fs then Inl (EISDIR p)
      else if butlast p \<notin> dirs fs then Inl (ENOENT p)
      else Inr (fs\<lparr>files := (files fs)(p \<mapsto> data)\<rparr>))"

definition existsSync :: "path \<Rightarrow> fsys \<Rightarrow> bool" where
  "existsSync p fs = (files fs p \<noteq> None \<or> p \<in> dirs fs)"

text \<open>\<^verbatim>\<open>fs.rmSync(dir, { recursive: true, force: true })\<close>.\<close>

definition rmSync :: "path \<Rightarrow> fsys \<Rightarrow> fsys" where
  "rmSync d fs =
     \<lparr>files = (\<lambda>p. if under d p then None else files fs p),
      dirs = {p \<in> dirs fs. \<not> under d p}\<rparr>"

section \<open>The compile-and-run endpoint\<close>

text \<open>
  What lies outside the handler is a parameter of the model: the directories the process
  runs in, the random bytes drawn, and the three child processes. \<^verbatim>\<open>execCmd\<close> resolves
  with the child's output or rejects with an error carrying it (\<open>Rejected\<close> holds the
  text of \<^verbatim>\<open>String(error)\<close> first); \<^verbatim>\<open>runProgramWithStdin\<close> resolves with a record.
  The compiler \<^verbatim>\<open>xu_compiler.py\<close> is one of these child processes, and is not among
  the sources.
\<close>

datatype exec_result =
    Resolved string string
  | Rejected string string string

record run_result =
  r_error :: "string option"
  r_stdout :: string
  r_stderr :: string
  r_code :: "int option"
  r_signal :: "string option"

record env =
  os_tmpdir :: path
  process_cwd :: path
  randomBytes :: "8 word list"
  xu_exec :: "path \<Rightarrow> fsys \<Rightarrow> exec_result"
  gcc_exec :: "path \<Rightarrow> fsys \<Rightarrow> exec_result"
  run_program :: "path \<Rightarrow> string \<Rightarrow> run_result"

text \<open>
  The body of a 200 response. A field that the handler did not set is \<open>None\<close>; a text is
  \<open>Inr s\<close>, or \<open>Inl e\<close> for \<^verbatim>\<open>String(e)\<close> of an error \<open>e\<close> of the model.
\<close>

record result =
  c_code :: string
  errors :: "string list"
  expects_input :: "bool option"
  compile_stdout :: "string option"
  compile_stderr :: "(error + string) option"
  run_stdout :: "string option"
  run_stderr :: "string option"
  run_code :: "int option option"
  run_signal :: "string option option"

datatype response =
    Status400                 \<comment> \<open>\<^verbatim>\<open>{ error: 'payload invalido: ...' }\<close>\<close>
  | Status500 error           \<comment> \<open>\<^verbatim>\<open>{ error: String(err) }\<close>\<close>
  | Json result               \<comment> \<open>\<^verbatim>\<open>res.json(result)\<close>\<close>
  | NoResponse error          \<comment> \<open>thrown before the \<^verbatim>\<open>try\<close>: the handler's promise rejects\<close>

text \<open>Lines 17-23, \<^verbatim>\<open>tmpDir()\<close>.\<close>

definition tmpDir :: "env \<Rightarrow> fsys \<Rightarrow> error + (path \<times> fsys)" where
  "tmpDir e fs =
     (let dir = path_join (os_tmpdir e) (''xu_'' @ hex (randomBytes e))
      in case mkdirSync dir fs of
           Inl err \<Rightarrow> Inl err
         | Inr fs' \<Rightarrow> Inr (dir, fs'))"

text \<open>
  Lines 114-119, the loop that writes the files of the payload. An exception leaves the
  loop; what was written before it stays.
\<close>

fun write_files :: "path \<Rightarrow> jv list \<Rightarrow> fsys \<Rightarrow> error option \<times> fsys" where
  "write_files dir [] fs = (None, fs)"
| "write_files dir (f # rest) fs =
     (case get_prop f ''name'' of
        Inl err \<Rightarrow> (Some err, fs)
      | Inr name \<Rightarrow>
          (case safe_path dir name of
             Inl err \<Rightarrow> (Some err, fs)
           | Inr fname \<Rightarrow>
               (case field f ''content'' of
                  JStr data \<Rightarrow>
                    (case writeFileSync fname data fs of
                       Inl err \<Rightarrow> (Some err, fs)
                     | Inr fs' \<Rightarrow> write_files dir rest fs')
                | _ \<Rightarrow> (Some TypeErrorArgument, fs))))"

text \<open>
  Lines 188-200, the standard input of the compiled program. \<open>mapM_String\<close> is
  \<^verbatim>\<open>xs.map(i => String(g(i)))\<close>, which stops at the first exception.
\<close>

fun mapM_String :: "(jv \<Rightarrow> error + jv) \<Rightarrow> jv list \<Rightarrow> error + string list" where
  "mapM_String g [] = Inr []"
| "mapM_String g (x # xs) =
     (case g x of
        Inl err \<Rightarrow> Inl err
      | Inr v \<Rightarrow>
          (case js_String v of
             Inl err \<Rightarrow> Inl err
           | Inr s \<Rightarrow>
               (case mapM_String g xs of
                  Inl err \<Rightarrow> Inl err
                | Inr ss \<Rightarrow> Inr (s # ss))))"

text \<open>\<^verbatim>\<open>ss.join('\n')\<close> on strings.\<close>

fun join_lines :: "string list \<Rightarrow> string" where
  "join_lines [] = []"
| "join_lines [s] = s"
| "join_lines (s # t # ss) = s @ [LF] @ join_lines (t # ss)"

definition joined_inputs :: "(jv \<Rightarrow> error + jv) \<Rightarrow> jv list \<Rightarrow> error + string" where
  "joined_inputs g xs =
     (case mapM_String g xs of
        Inl err \<Rightarrow> Inl err
      | Inr ss \<Rightarrow> Inr (join_lines ss @ (if xs \<noteq> [] then [LF] else [])))"

definition inputString :: "jv \<Rightarrow> error + string" where
  "inputString payload =
     (case field payload ''stdin'' of
        JStr s \<Rightarrow> Inr s
      | _ \<Rightarrow>
          (case field payload ''inputs'' of
             JArr xs \<Rightarrow>
               (case (if xs \<noteq> [] \<and> typeof_object (hd xs) then in_operator ''value'' (hd xs)
                      else Inr False) of
                  Inl err \<Rightarrow> Inl err
                | Inr True \<Rightarrow> joined_inputs (\<lambda>i. get_prop i ''value'') xs
                | Inr False \<Rightarrow> joined_inputs Inr xs)
           | _ \<Rightarrow> Inr []))"

text \<open>
  Lines 176-219: gcc, then the program. An exception while the standard input is built
  is thrown inside the \<^verbatim>\<open>try\<close> of gcc and lands in its \<^verbatim>\<open>catch\<close>.
\<close>

definition gcc_stage :: "env \<Rightarrow> jv \<Rightarrow> path \<Rightarrow> fsys \<Rightarrow> result \<Rightarrow> result" where
  "gcc_stage e payload dir fs result =
     (case gcc_exec e (path_join dir ''out.c'') fs of
        Rejected shown out err \<Rightarrow>
          result\<lparr>compile_stdout := Some out,
                 compile_stderr := Some (Inr (if err \<noteq> [] then err else shown))\<rparr>
      | Resolved out err \<Rightarrow>
          (let result1 = result\<lparr>compile_stdout := Some out, compile_stderr := Some (Inr err)\<rparr>
           in case inputString payload of
                Inl exn \<Rightarrow> result1\<lparr>compile_stdout := Some [], compile_stderr := Some (Inl exn)\<rparr>
              | Inr inp \<Rightarrow>
                  (let run = run_program e (path_join dir ''./program'') inp
                   in result1\<lparr>run_stdout := Some (r_stdout run),
                              run_stderr := Some (r_stderr run),
                              run_code := Some (r_code run),
                              run_signal := Some (r_signal run)\<rparr>)))"

text \<open>Lines 144-147 and 151-156: the body built from what the compiler printed.\<close>

definition empty_result :: result where
  "empty_result =
     \<lparr>c_code = [], errors = [], expects_input = None, compile_stdout = None,
      compile_stderr = None, run_stdout = None, run_stderr = None, run_code = None,
      run_signal = None\<rparr>"

definition resultErr :: "string \<Rightarrow> string \<Rightarrow> result" where
  "resultErr out err = empty_result\<lparr>c_code := out, errors := error_lines err\<rparr>"

definition result_of_compiler :: "string \<Rightarrow> string \<Rightarrow> result" where
  "result_of_compiler out err =
     empty_result\<lparr>c_code := out, errors := (if \<not> blank err then error_lines err else [])\<rparr>"

text \<open>Lines 111-225, the \<^verbatim>\<open>try\<close> block of the handler, in the directory \<open>dir\<close>.\<close>

definition payload_files :: "jv \<Rightarrow> jv list" where
  "payload_files payload = (case field payload ''files'' of JArr fl \<Rightarrow> fl | _ \<Rightarrow> [])"

definition try_block :: "env \<Rightarrow> jv \<Rightarrow> path \<Rightarrow> fsys \<Rightarrow> response \<times> fsys" where
  "try_block e payload dir fs =
     (case write_files dir (payload_files payload) fs of
        (Some err, fs1) \<Rightarrow> (Status500 err, fs1)
      | (None, fs1) \<Rightarrow>
          if \<not> existsSync (path_join (process_cwd e) ''xu_compiler.py'') fs1
          then (Status500 CompilerNotFound, fs1)
          else
            (case safe_path dir (field payload ''entry'') of
               Inl err \<Rightarrow> (Status500 err, fs1)
             | Inr entryPath \<Rightarrow>
                 (case xu_exec e entryPath fs1 of
                    Rejected shown out err \<Rightarrow> (Json (resultErr out err), fs1)
                  | Resolved out err \<Rightarrow>
                      (let result = result_of_compiler out err
                       in if blank out then (Json result, fs1)
                          else
                            (case writeFileSync (path_join dir ''out.c'') out fs1 of
                               Inl err \<Rightarrow> (Status500 err, fs1)
                             | Inr fs2 \<Rightarrow>
                                 (Json (gcc_stage e payload dir fs2
                                          (result\<lparr>expects_input := Some (expectsInput out)\<rparr>)),
                                  fs2))))))"

text \<open>
  Lines 103-238, \<^verbatim>\<open>app.post('/apicompile')\<close>: the response, the file system the handler
  leaves, and the directory whose removal the \<^verbatim>\<open>finally\<close> block schedules.
\<close>

definition apicompile :: "env \<Rightarrow> jv \<Rightarrow> fsys \<Rightarrow> response \<times> fsys \<times> path option" where
  "apicompile e payload fs =
     (if \<not> truthy payload \<or> \<not> isArray (field payload ''files'') \<or> \<not> truthy (field payload ''entry'')
      then (Status400, fs, None)
      else
        (case tmpDir e fs of
           Inl err \<Rightarrow> (NoResponse err, fs, None)
         | Inr (dir, fs0) \<Rightarrow>
             (case try_block e payload dir fs0 of
                (resp, fs1) \<Rightarrow> (resp, fs1, Some dir))))"

text \<open>Lines 229-236, the removal that the timer runs afterwards.\<close>

definition cleanup :: "path option \<Rightarrow> fsys \<Rightarrow> fsys" where
  "cleanup scheduled fs = (case scheduled of None \<Rightarrow> fs | Some dir \<Rightarrow> rmSync dir fs)"

section \<open>Concrete requests\<close>

text \<open>
  The inputs at which the theorems below are instantiated: a backend started in
  \<^verbatim>\<open>/app\<close> beside \<^verbatim>\<open>xu_compiler.py\<close>, with \<^verbatim>\<open>/tmp\<close> as temporary directory, and
  child processes whose outcome is fixed.
\<close>

definition json_body :: "response \<Rightarrow> result option" where
  "json_body resp = (case resp of Json r \<Rightarrow> Some r | _ \<Rightarrow> None)"

definition sample_run :: run_result where
  "sample_run = \<lparr>r_error = None, r_stdout = ''ok'', r_stderr = [], r_code = Some 0, r_signal = None\<rparr>"

definition sample_env :: "exec_result \<Rightarrow> env" where
  "sample_env xu =
     \<lparr>os_tmpdir = [''tmp''], process_cwd = [''app''], randomBytes = [0, 1, 2, 3, 4, 5],
      xu_exec = (\<lambda>entryPath fs. xu),
      gcc_exec = (\<lambda>outC fs. Resolved [] []),
      run_program = (\<lambda>programPath inp. sample_run)\<rparr>"

definition sample_fs :: fsys where
  "sample_fs =
     \<lparr>files = [[''app'', ''xu_compiler.py''] \<mapsto> ''import ply.yacc''],
      dirs = {[], [''tmp''], [''app'']}\<rparr>"

text \<open>A directory as \<^verbatim>\<open>tmpDir()\<close> leaves it, for the random bytes of \<open>sample_env\<close>.\<close>

definition sample_dir :: path where
  "sample_dir = [''tmp'', ''xu_000102030405'']"

definition sample_fs_in_request :: fsys where
  "sample_fs_in_request = sample_fs\<lparr>dirs := insert sample_dir (dirs sample_fs)\<rparr>"

text \<open>
  The two examples of the specification (section 8) as requests: the program that reads
  \<^verbatim>\<open>idade\<close>, and the program that writes the undeclared \<^verbatim>\<open>altura\<close>; and for each an
  outcome of the compiler process of the kind the specification describes, generated C
  alone or a diagnostic alone.
\<close>

definition valid_source :: string where
  "valid_source =
     join_lines ['': DECLARACOES'', ''idade : INTEIRO'', '': PROGRAMA'', ''LEIA idade'',
                 ''SE idade >= 18 ENTAO'', ''    ESCREVA idade'', ''FIM'']"


definition request_for :: "string \<Rightarrow> jv" where
  "request_for source =
     JObj [(''files'', JArr [JObj [(''name'', JStr ''program.xu''), (''content'', JStr source)]]),
           (''entry'', JStr ''program.xu''),
           (''inputs'', JArr [JStr ''20''])]"

definition generated_c_outcome :: exec_result where
  "generated_c_outcome =
     Resolved ''int main(void) { int idade; scanf(\"%d\", &idade); if (idade >= 18) { printf(\"%d\", idade); } return 0; }''
              []"


definition payload_null_input :: jv where
  "payload_null_input =
     JObj [(''files'', JArr [JObj [(''name'', JStr ''program.xu''),
                                   (''content'', JStr '': DECLARACOES'')]]),
           (''entry'', JStr ''program.xu''),
           (''inputs'', JArr [JNull])]"

section \<open>The compiler, from its specification\<close>

text \<open>
  The compiler itself (\<^verbatim>\<open>backend/xu_compiler.py\<close>: lexer, parser, symbol table, semantic
  analyzer, code generator) is not among the sources; the backend only starts it as a
  child process. What follows is written from the specification, sections 3, 4 and 6.
\<close>

subsection \<open>Tokens and syntax trees\<close>

text \<open>
  Modelled from the spec: the kinds of token that the missing lexer produces (section 3):
  a token has a kind, the lexeme (a keyword's in upper case, section 4.1), line and
  column; the end marker closes the sequence.
\<close>

datatype kind =
    Keyword | Identifier | IntegerLiteral | RealLiteralToken | StringLiteral
  | Operator | Punctuation | EndMarker

text \<open>
  Modelled from the spec: the token record of the missing lexer (section 3), immutable
  once produced.
\<close>

record token =
  kind :: kind
  lexeme :: string
  line :: nat
  column :: nat

text \<open>
  Modelled from the spec: the four primitive types of the missing compiler (section 3),
  INTEIRO, REAL, TEXTO and LOGICO in the source language.
\<close>

datatype ty = INTEGER | REAL | TEXT | BOOLEAN

text \<open>
  Modelled from the spec: the Declaration node of the syntax tree that the missing parser
  builds (section 3), with the line that its diagnostics cite.
\<close>

datatype var_declaration = Declaration (decl_name: string) (decl_type: ty) (decl_line: nat)

text \<open>Modelled from the spec: the arithmetic operators of the missing parser's BinaryOp (section 3).\<close>

datatype binop = Add | Sub | Mul | Div

text \<open>
  Modelled from the spec: the comparison operators of the missing parser's Comparison
  (section 3): \<^verbatim>\<open>>= <= > < == <>\<close>.
\<close>

datatype cmpop = GreaterEq | LessEq | Greater | Less | Equal | NotEqual

text \<open>Modelled from the spec: the ArithmeticExpr of the missing parser's syntax tree (section 3).\<close>

datatype arith =
    IntLiteral string
  | RealLiteral string
  | VarRef string
  | BinaryOp binop arith arith
  | Paren arith

text \<open>Modelled from the spec: the RelationalExpr of the missing parser's syntax tree (section 3).\<close>

datatype rel =
    Comparison cmpop arith arith
  | LogicalAnd rel rel
  | LogicalOr rel rel
  | ParenRel rel

text \<open>
  Modelled from the spec: the argument of Write in the missing parser's syntax tree
  (section 3): an identifier or a string literal.
\<close>

datatype write_argument = IdentArg string | StringArg string

text \<open>
  Modelled from the spec: the Statement of the missing parser's syntax tree (section 3).
  An assignment, a read, a write, a conditional and a loop carry the line that their
  diagnostics cite.
\<close>

datatype statement =
    Assignment nat string arith
  | Read nat string
  | Write nat write_argument
  | IfStmt nat rel "statement list" "statement list option"
  | While nat rel "statement list"
  | Block "statement list"

text \<open>Modelled from the spec: the Program of the missing parser's syntax tree (section 3).\<close>

datatype program = Program (declarations: "var_declaration list") (statements: "statement list")

subsection \<open>The grammar\<close>

text \<open>
  Modelled from the spec: a keyword terminal of the grammar of section 4.2, which the
  missing parser consumes.
\<close>

definition kw :: "string \<Rightarrow> token \<Rightarrow> bool" where
  "kw k t = (kind t = Keyword \<and> lexeme t = k)"

text \<open>
  Modelled from the spec: a symbol terminal of the missing parser's grammar. The
  specification lists operators and punctuation together (section 6), so a symbol is a
  token of either kind with the given lexeme.
\<close>

definition sym :: "string \<Rightarrow> token \<Rightarrow> bool" where
  "sym s t = ((kind t = Operator \<or> kind t = Punctuation) \<and> lexeme t = s)"

text \<open>Modelled from the spec: the production Type of the missing parser's grammar (section 4.2).\<close>

fun type_keyword :: "string \<Rightarrow> ty option" where
  "type_keyword k =
     (if k = ''INTEIRO'' then Some INTEGER
      else if k = ''REAL'' then Some REAL
      else if k = ''TEXTO'' then Some TEXT
      else if k = ''LOGICO'' then Some BOOLEAN
      else None)"

text \<open>Modelled from the spec: the terminal CMPOP of the missing parser's grammar (sections 4.2 and 6).\<close>

fun cmp_operator :: "string \<Rightarrow> cmpop option" where
  "cmp_operator s =
     (if s = ''>='' then Some GreaterEq
      else if s = ''<='' then Some LessEq
      else if s = ''>'' then Some Greater
      else if s = ''<'' then Some Less
      else if s = ''=='' then Some Equal
      else if s = ''<>'' then Some NotEqual
      else None)"

text \<open>
  Modelled from the spec: the missing parser, as the grammar of section 4.2 that it
  implements production by production. \<open>Nonterminal ts t\<close> holds when the tokens \<open>ts\<close>
  derive from the nonterminal and build the tree \<open>t\<close>; the parser accepts a token
  sequence when \<open>ProgramRule\<close> derives it, and raises a SyntaxError otherwise. A
  repetition \<open>X (op X)*\<close> builds its tree to the left. First the productions Factor,
  Term and ArithExpr.
\<close>

inductive Factor :: "token list \<Rightarrow> arith \<Rightarrow> bool"
  and Term :: "token list \<Rightarrow> arith \<Rightarrow> bool"
  and ArithExpr :: "token list \<Rightarrow> arith \<Rightarrow> bool" where
  Factor_int: "kind t = IntegerLiteral \<Longrightarrow> Factor [t] (IntLiteral (lexeme t))"
| Factor_real: "kind t = RealLiteralToken \<Longrightarrow> Factor [t] (RealLiteral (lexeme t))"
| Factor_ident: "kind t = Identifier \<Longrightarrow> Factor [t] (VarRef (lexeme t))"
| Factor_paren:
    "sym ''('' l \<Longrightarrow> ArithExpr ts e \<Longrightarrow> sym '')'' r \<Longrightarrow> Factor (l # ts @ [r]) (Paren e)"
| Term_factor: "Factor ts e \<Longrightarrow> Term ts e"
| Term_times:
    "Term ts a \<Longrightarrow> sym ''*'' t \<Longrightarrow> Factor us b \<Longrightarrow> Term (ts @ t # us) (BinaryOp Mul a b)"
| Term_divide:
    "Term ts a \<Longrightarrow> sym ''/'' t \<Longrightarrow> Factor us b \<Longrightarrow> Term (ts @ t # us) (BinaryOp Div a b)"
| Arith_term: "Term ts e \<Longrightarrow> ArithExpr ts e"
| Arith_plus:
    "ArithExpr ts a \<Longrightarrow> sym ''+'' t \<Longrightarrow> Term us b \<Longrightarrow> ArithExpr (ts @ t # us) (BinaryOp Add a b)"
| Arith_minus:
    "ArithExpr ts a \<Longrightarrow> sym ''-'' t \<Longrightarrow> Term us b \<Longrightarrow> ArithExpr (ts @ t # us) (BinaryOp Sub a b)"

text \<open>Modelled from the spec: the productions RelTerm and RelExpr of the missing parser (section 4.2).\<close>

inductive RelTerm :: "token list \<Rightarrow> rel \<Rightarrow> bool"
  and RelExpr :: "token list \<Rightarrow> rel \<Rightarrow> bool" where
  RelTerm_cmp:
    "ArithExpr ts a \<Longrightarrow> (kind t = Operator \<or> kind t = Punctuation) \<Longrightarrow>
     cmp_operator (lexeme t) = Some c \<Longrightarrow> ArithExpr us b \<Longrightarrow>
     RelTerm (ts @ t # us) (Comparison c a b)"
| RelTerm_paren:
    "sym ''('' l \<Longrightarrow> RelExpr ts e \<Longrightarrow> sym '')'' r \<Longrightarrow> RelTerm (l # ts @ [r]) (ParenRel e)"
| RelExpr_term: "RelTerm ts e \<Longrightarrow> RelExpr ts e"
| RelExpr_and:
    "RelExpr ts a \<Longrightarrow> kw ''E'' t \<Longrightarrow> RelTerm us b \<Longrightarrow> RelExpr (ts @ t # us) (LogicalAnd a b)"
| RelExpr_or:
    "RelExpr ts a \<Longrightarrow> kw ''OU'' t \<Longrightarrow> RelTerm us b \<Longrightarrow> RelExpr (ts @ t # us) (LogicalOr a b)"

text \<open>
  Modelled from the spec: the productions Statement (Assignment, Read, Write, If, While,
  Block) and Statement* of the missing parser (section 4.2).
\<close>

inductive Statement :: "token list \<Rightarrow> statement \<Rightarrow> bool"
  and Statements :: "token list \<Rightarrow> statement list \<Rightarrow> bool" where
  Assignment_rule:
    "kind x = Identifier \<Longrightarrow> sym ''<-'' t \<Longrightarrow> ArithExpr ts e \<Longrightarrow>
     Statement (x # t # ts) (Assignment (line x) (lexeme x) e)"
| Read_rule:
    "kw ''LEIA'' t \<Longrightarrow> kind x = Identifier \<Longrightarrow> Statement [t, x] (Read (line t) (lexeme x))"
| Write_ident:
    "kw ''ESCREVA'' t \<Longrightarrow> kind x = Identifier \<Longrightarrow>
     Statement [t, x] (Write (line t) (IdentArg (lexeme x)))"
| Write_string:
    "kw ''ESCREVA'' t \<Longrightarrow> kind x = StringLiteral \<Longrightarrow>
     Statement [t, x] (Write (line t) (StringArg (lexeme x)))"
| If_rule:
    "kw ''SE'' t \<Longrightarrow> RelExpr cs c \<Longrightarrow> kw ''ENTAO'' th \<Longrightarrow> Statements ts ss \<Longrightarrow> kw ''FIM'' f \<Longrightarrow>
     Statement (t # cs @ th # ts @ [f]) (IfStmt (line t) c ss None)"
| If_else_rule:
    "kw ''SE'' t \<Longrightarrow> RelExpr cs c \<Longrightarrow> kw ''ENTAO'' th \<Longrightarrow> Statements ts ss \<Longrightarrow>
     kw ''SENAO'' el \<Longrightarrow> Statements us es \<Longrightarrow> kw ''FIM'' f \<Longrightarrow>
     Statement (t # cs @ th # ts @ el # us @ [f]) (IfStmt (line t) c ss (Some es))"
| While_rule:
    "kw ''ENQUANTO'' t \<Longrightarrow> RelExpr cs c \<Longrightarrow> Statements ts ss \<Longrightarrow> kw ''FIM'' f \<Longrightarrow>
     Statement (t # cs @ ts @ [f]) (While (line t) c ss)"
| Block_rule:
    "kw ''INICIO'' t \<Longrightarrow> Statements ts ss \<Longrightarrow> kw ''FIM'' f \<Longrightarrow>
     Statement (t # ts @ [f]) (Block ss)"
| Statements_empty: "Statements [] []"
| Statements_more:
    "Statement ts s \<Longrightarrow> Statements us ss \<Longrightarrow> Statements (ts @ us) (s # ss)"

text \<open>Modelled from the spec: the production Declaration* of the missing parser (section 4.2).\<close>

inductive Declarations :: "token list \<Rightarrow> var_declaration list \<Rightarrow> bool" where
  Declarations_empty: "Declarations [] []"
| Declarations_more:
    "kind x = Identifier \<Longrightarrow> sym '':'' c \<Longrightarrow> kind k = Keyword \<Longrightarrow>
     type_keyword (lexeme k) = Some \<tau> \<Longrightarrow> Declarations ts ds \<Longrightarrow>
     Declarations (x # c # k # ts) (Declaration (lexeme x) \<tau> (line x) # ds)"

text \<open>
  Modelled from the spec: the production Program of the missing parser (section 4.2), up
  to the end marker.
\<close>

inductive ProgramRule :: "token list \<Rightarrow> program \<Rightarrow> bool" where
  Program_rule:
    "sym '':'' c1 \<Longrightarrow> kw ''DECLARACOES'' d \<Longrightarrow> Declarations ds decls \<Longrightarrow>
     sym '':'' c2 \<Longrightarrow> kw ''PROGRAMA'' p \<Longrightarrow> Statements ts stmts \<Longrightarrow> kind e = EndMarker \<Longrightarrow>
     ProgramRule (c1 # d # ds @ c2 # p # ts @ [e]) (Program decls stmts)"





text \<open>The tokens of the first three lines of the specification's example (section 8).\<close>

definition tok :: "kind \<Rightarrow> string \<Rightarrow> nat \<Rightarrow> nat \<Rightarrow> token" where
  "tok k s l c = \<lparr>kind = k, lexeme = s, line = l, column = c\<rparr>"

definition header_tokens :: "token list" where
  "header_tokens =
     [tok Punctuation '':'' 1 1, tok Keyword ''DECLARACOES'' 1 3,
      tok Identifier ''idade'' 2 1, tok Punctuation '':'' 2 7, tok Keyword ''INTEIRO'' 2 9,
      tok Punctuation '':'' 3 1, tok Keyword ''PROGRAMA'' 3 3]"

subsection \<open>The semantic analyzer\<close>

text \<open>
  Modelled from the spec: what a TypeMismatch of the missing semantic analyzer expected
  (section 4.3): the declared type of an assignment's target, or a numeric type for the
  side of a comparison.
\<close>

datatype expected = ExpectedType ty | ExpectedNumeric

text \<open>
  Modelled from the spec: the SemanticError of the missing semantic analyzer (sections 4.3
  and 7), each with the line it cites.
\<close>

datatype semantic_error =
    Redeclaration string nat
  | UndeclaredVariable string nat
  | TypeMismatch expected ty nat

text \<open>
  Modelled from the spec: pass 1 of the missing analyzer. The table is built from the
  declarations in order; a name seen twice raises \<open>Redeclaration\<close> with the line of the
  later declaration, and the first declaration's type stays.
\<close>

fun build_table ::
  "var_declaration list \<Rightarrow> (string \<rightharpoonup> ty) \<Rightarrow> (string \<rightharpoonup> ty) \<times> semantic_error list" where
  "build_table [] table = (table, [])"
| "build_table (Declaration x \<tau> l # ds) table =
     (case table x of
        Some first \<Rightarrow>
          (case build_table ds table of (table', errs) \<Rightarrow> (table', Redeclaration x l # errs))
      | None \<Rightarrow> build_table ds (table(x \<mapsto> \<tau>)))"

text \<open>
  Modelled from the spec: the type that the missing analyzer infers for an expression
  (section 4.3, pass 2): a reference to an undeclared identifier has the placeholder type
  \<open>Unknown\<close>, which raises no further error.
\<close>

datatype inferred = Known ty | Unknown

text \<open>Modelled from the spec: the numeric types of the missing analyzer's rule 3, INTEGER and REAL.\<close>

definition numeric :: "ty \<Rightarrow> bool" where
  "numeric \<tau> = (\<tau> = INTEGER \<or> \<tau> = REAL)"

text \<open>
  Modelled from the spec: coercion in the missing analyzer's rule 3: INTEGER and REAL
  coerce to each other, TEXT and BOOLEAN accept their own type only.
\<close>

definition coercible :: "ty \<Rightarrow> ty \<Rightarrow> bool" where
  "coercible found target = ((numeric found \<and> numeric target) \<or> found = target)"

text \<open>
  Modelled from the spec: type inference of the missing analyzer (section 4.3). The
  specification gives no rule for the type of a binary operation: it is the parameter
  \<open>bt\<close> of the analyzer, applied to the operator and the types of the operands.
\<close>

fun infer :: "(binop \<Rightarrow> ty \<Rightarrow> ty \<Rightarrow> ty) \<Rightarrow> (string \<rightharpoonup> ty) \<Rightarrow> arith \<Rightarrow> inferred" where
  "infer bt table (IntLiteral n) = Known INTEGER"
| "infer bt table (RealLiteral n) = Known REAL"
| "infer bt table (VarRef x) = (case table x of Some \<tau> \<Rightarrow> Known \<tau> | None \<Rightarrow> Unknown)"
| "infer bt table (Paren e) = infer bt table e"
| "infer bt table (BinaryOp f a b) =
     (case (infer bt table a, infer bt table b) of
        (Known \<tau>, Known \<sigma>) \<Rightarrow> Known (bt f \<tau> \<sigma>)
      | _ \<Rightarrow> Unknown)"

text \<open>
  Modelled from the spec: pass 2 of the missing analyzer. An identifier reference that the
  table does not hold raises \<open>UndeclaredVariable\<close> with the statement's line.
\<close>

definition check_declared :: "(string \<rightharpoonup> ty) \<Rightarrow> nat \<Rightarrow> string \<Rightarrow> semantic_error list" where
  "check_declared table l x = (case table x of Some \<tau> \<Rightarrow> [] | None \<Rightarrow> [UndeclaredVariable x l])"

text \<open>
  Modelled from the spec: pass 2 of the missing analyzer over an expression: every
  \<open>VarRef\<close> is checked, and the walk goes on after an error.
\<close>

fun check_arith :: "(string \<rightharpoonup> ty) \<Rightarrow> nat \<Rightarrow> arith \<Rightarrow> semantic_error list" where
  "check_arith table l (IntLiteral n) = []"
| "check_arith table l (RealLiteral n) = []"
| "check_arith table l (VarRef x) = check_declared table l x"
| "check_arith table l (Paren e) = check_arith table l e"
| "check_arith table l (BinaryOp f a b) = check_arith table l a @ check_arith table l b"

text \<open>
  Modelled from the spec: rule 3 of the missing analyzer for the side of a comparison,
  which must be numeric; a side of a known type that is not raises \<open>TypeMismatch\<close>.
\<close>

definition check_numeric ::
  "(binop \<Rightarrow> ty \<Rightarrow> ty \<Rightarrow> ty) \<Rightarrow> (string \<rightharpoonup> ty) \<Rightarrow> nat \<Rightarrow> arith \<Rightarrow> semantic_error list" where
  "check_numeric bt table l e =
     (case infer bt table e of
        Known \<tau> \<Rightarrow> (if numeric \<tau> then [] else [TypeMismatch ExpectedNumeric \<tau> l])
      | Unknown \<Rightarrow> [])"

text \<open>
  Modelled from the spec: the missing analyzer on a relational expression (section 4.3):
  both sides of a comparison are checked; the logical operators check their operands.
\<close>

fun check_rel ::
  "(binop \<Rightarrow> ty \<Rightarrow> ty \<Rightarrow> ty) \<Rightarrow> (string \<rightharpoonup> ty) \<Rightarrow> nat \<Rightarrow> rel \<Rightarrow> semantic_error list" where
  "check_rel bt table l (Comparison c a b) =
     check_arith table l a @ check_arith table l b @
     check_numeric bt table l a @ check_numeric bt table l b"
| "check_rel bt table l (LogicalAnd p q) = check_rel bt table l p @ check_rel bt table l q"
| "check_rel bt table l (LogicalOr p q) = check_rel bt table l p @ check_rel bt table l q"
| "check_rel bt table l (ParenRel p) = check_rel bt table l p"

text \<open>
  Modelled from the spec: rule 3 of the missing analyzer for an assignment, whose
  expression's inferred type must be coercible to the declared type of the target.
\<close>

definition check_assignable ::
  "(binop \<Rightarrow> ty \<Rightarrow> ty \<Rightarrow> ty) \<Rightarrow> (string \<rightharpoonup> ty) \<Rightarrow> nat \<Rightarrow> string \<Rightarrow> arith \<Rightarrow> semantic_error list" where
  "check_assignable bt table l x e =
     (case (table x, infer bt table e) of
        (Some \<tau>, Known \<sigma>) \<Rightarrow>
          (if coercible \<sigma> \<tau> then [] else [TypeMismatch (ExpectedType \<tau>) \<sigma> l])
      | _ \<Rightarrow> [])"

text \<open>
  Modelled from the spec: the walk of the missing analyzer over the statements (passes 2
  and 3). The errors of each statement, and of each statement nested in it, are appended
  in order; nothing stops the walk.
\<close>

fun check_statement ::
  "(binop \<Rightarrow> ty \<Rightarrow> ty \<Rightarrow> ty) \<Rightarrow> (string \<rightharpoonup> ty) \<Rightarrow> statement \<Rightarrow> semantic_error list"
  and check_statements ::
  "(binop \<Rightarrow> ty \<Rightarrow> ty \<Rightarrow> ty) \<Rightarrow> (string \<rightharpoonup> ty) \<Rightarrow> statement list \<Rightarrow> semantic_error list" where
  "check_statement bt table (Assignment l x e) =
     check_declared table l x @ check_arith table l e @ check_assignable bt table l x e"
| "check_statement bt table (Read l x) = check_declared table l x"
| "check_statement bt table (Write l (IdentArg x)) = check_declared table l x"
| "check_statement bt table (Write l (StringArg s)) = []"
| "check_statement bt table (IfStmt l c thenBranch elseBranch) =
     check_rel bt table l c @ check_statements bt table thenBranch @
     (case elseBranch of None \<Rightarrow> [] | Some ss \<Rightarrow> check_statements bt table ss)"
| "check_statement bt table (While l c body) =
     check_rel bt table l c @ check_statements bt table body"
| "check_statement bt table (Block body) = check_statements bt table body"
| "check_statements bt table [] = []"
| "check_statements bt table (s # ss) =
     check_statement bt table s @ check_statements bt table ss"

text \<open>
  Modelled from the spec: the contract of the missing analyzer (section 4.3): the symbol
  table and the list of all semantic errors.
\<close>

definition analyze ::
  "(binop \<Rightarrow> ty \<Rightarrow> ty \<Rightarrow> ty) \<Rightarrow> program \<Rightarrow> (string \<rightharpoonup> ty) \<times> semantic_error list" where
  "analyze bt p =
     (case build_table (declarations p) Map.empty of
        (table, errs) \<Rightarrow> (table, errs @ check_statements bt table (statements p)))"

text \<open>
  Modelled from the spec: what "well-typed" means in sections 3 and 4.3, as typing rules
  that mention no error and no order of traversal. The names declared are distinct; every
  identifier referenced is declared; an assignment's expression has a type coercible to
  the target's; both sides of a comparison have a numeric type. First the type of an
  expression.
\<close>

inductive has_type ::
  "(binop \<Rightarrow> ty \<Rightarrow> ty \<Rightarrow> ty) \<Rightarrow> (string \<rightharpoonup> ty) \<Rightarrow> arith \<Rightarrow> ty \<Rightarrow> bool"
  for bt :: "binop \<Rightarrow> ty \<Rightarrow> ty \<Rightarrow> ty" and table :: "string \<rightharpoonup> ty" where
  type_int: "has_type bt table (IntLiteral n) INTEGER"
| type_real: "has_type bt table (RealLiteral n) REAL"
| type_var: "table x = Some \<tau> \<Longrightarrow> has_type bt table (VarRef x) \<tau>"
| type_paren: "has_type bt table e \<tau> \<Longrightarrow> has_type bt table (Paren e) \<tau>"
| type_binary:
    "has_type bt table a \<tau> \<Longrightarrow> has_type bt table b \<sigma> \<Longrightarrow>
     has_type bt table (BinaryOp f a b) (bt f \<tau> \<sigma>)"

text \<open>
  Modelled from the spec: a well-typed relational expression (section 4.3, rule 3): both
  sides of every comparison have a numeric type.
\<close>

inductive rel_ok ::
  "(binop \<Rightarrow> ty \<Rightarrow> ty \<Rightarrow> ty) \<Rightarrow> (string \<rightharpoonup> ty) \<Rightarrow> rel \<Rightarrow> bool"
  for bt :: "binop \<Rightarrow> ty \<Rightarrow> ty \<Rightarrow> ty" and table :: "string \<rightharpoonup> ty" where
  ok_comparison:
    "has_type bt table a \<tau> \<Longrightarrow> numeric \<tau> \<Longrightarrow> has_type bt table b \<sigma> \<Longrightarrow> numeric \<sigma> \<Longrightarrow>
     rel_ok bt table (Comparison c a b)"
| ok_and: "rel_ok bt table p \<Longrightarrow> rel_ok bt table q \<Longrightarrow> rel_ok bt table (LogicalAnd p q)"
| ok_or: "rel_ok bt table p \<Longrightarrow> rel_ok bt table q \<Longrightarrow> rel_ok bt table (LogicalOr p q)"
| ok_paren: "rel_ok bt table p \<Longrightarrow> rel_ok bt table (ParenRel p)"

text \<open>
  Modelled from the spec: a well-typed statement and list of statements (section 4.3,
  rules 2 and 3).
\<close>

inductive statement_ok ::
  "(binop \<Rightarrow> ty \<Rightarrow> ty \<Rightarrow> ty) \<Rightarrow> (string \<rightharpoonup> ty) \<Rightarrow> statement \<Rightarrow> bool"
  and statements_ok ::
  "(binop \<Rightarrow> ty \<Rightarrow> ty \<Rightarrow> ty) \<Rightarrow> (string \<rightharpoonup> ty) \<Rightarrow> statement list \<Rightarrow> bool"
  for bt :: "binop \<Rightarrow> ty \<Rightarrow> ty \<Rightarrow> ty" and table :: "string \<rightharpoonup> ty" where
  ok_assignment:
    "table x = Some \<tau> \<Longrightarrow> has_type bt table e \<sigma> \<Longrightarrow> coercible \<sigma> \<tau> \<Longrightarrow>
     statement_ok bt table (Assignment l x e)"
| ok_read: "table x = Some \<tau> \<Longrightarrow> statement_ok bt table (Read l x)"
| ok_write_ident: "table x = Some \<tau> \<Longrightarrow> statement_ok bt table (Write l (IdentArg x))"
| ok_write_string: "statement_ok bt table (Write l (StringArg s))"
| ok_if:
    "rel_ok bt table c \<Longrightarrow> statements_ok bt table thenBranch \<Longrightarrow>
     statement_ok bt table (IfStmt l c thenBranch None)"
| ok_if_else:
    "rel_ok bt table c \<Longrightarrow> statements_ok bt table thenBranch \<Longrightarrow>
     statements_ok bt table elseBranch \<Longrightarrow>
     statement_ok bt table (IfStmt l c thenBranch (Some elseBranch))"
| ok_while:
    "rel_ok bt table c \<Longrightarrow> statements_ok bt table body \<Longrightarrow>
     statement_ok bt table (While l c body)"
| ok_block: "statements_ok bt table body \<Longrightarrow> statement_ok bt table (Block body)"
| ok_nil: "statements_ok bt table []"
| ok_cons:
    "statement_ok bt table s \<Longrightarrow> statements_ok bt table ss \<Longrightarrow>
     statements_ok bt table (s # ss)"

text \<open>
  Modelled from the spec: the symbol table as the mapping from each declared identifier
  to its type (section 3).
\<close>

definition declared_types :: "var_declaration list \<Rightarrow> (string \<rightharpoonup> ty)" where
  "declared_types ds = map_of (map (\<lambda>d. (decl_name d, decl_type d)) ds)"

text \<open>
  Modelled from the spec: a well-typed program (sections 3 and 4.3): each name is declared
  at most once, and the statements are well-typed in the table of the declarations.
\<close>

definition well_typed :: "(binop \<Rightarrow> ty \<Rightarrow> ty \<Rightarrow> ty) \<Rightarrow> program \<Rightarrow> bool" where
  "well_typed bt p =
     (distinct (map decl_name (declarations p)) \<and>
      statements_ok bt (declared_types (declarations p)) (statements p))"




text \<open>Every statement of a list, with every statement nested in it, in the order of the walk.\<close>

fun nested :: "statement \<Rightarrow> statement list"
  and all_statements :: "statement list \<Rightarrow> statement list" where
  "nested (IfStmt l c thenBranch elseBranch) =
     all_statements thenBranch @ (case elseBranch of None \<Rightarrow> [] | Some ss \<Rightarrow> all_statements ss)"
| "nested (While l c body) = all_statements body"
| "nested (Block body) = all_statements body"
| "nested (Assignment l x e) = []"
| "nested (Read l x) = []"
| "nested (Write l a) = []"
| "all_statements [] = []"
| "all_statements (s # ss) = s # nested s @ all_statements ss"

fun repeated_declarations :: "var_declaration list \<Rightarrow> string list \<Rightarrow> (string \<times> nat) list" where
  "repeated_declarations [] seen = []"
| "repeated_declarations (Declaration x \<tau> l # ds) seen =
     (if x \<in> set seen then (x, l) # repeated_declarations ds seen
      else repeated_declarations ds (x # seen))"



text \<open>A rule for the type of a binary operation, for the examples: the usual promotion.\<close>

definition promote :: "binop \<Rightarrow> ty \<Rightarrow> ty \<Rightarrow> ty" where
  "promote f \<tau> \<sigma> = (if \<tau> = INTEGER \<and> \<sigma> = INTEGER then INTEGER else REAL)"



subsection \<open>The code generator\<close>

text \<open>
  Modelled from the spec: the C types of the missing code generator's mapping table
  (sections 4.4 and 6): \<^verbatim>\<open>int\<close>, \<^verbatim>\<open>double\<close> and a fixed-size character buffer.
\<close>

datatype c_type = C_int | C_double | C_char_buffer

text \<open>Modelled from the spec: the column "C type" of the missing code generator's table (section 6).\<close>

fun c_type_of :: "ty \<Rightarrow> c_type" where
  "c_type_of INTEGER = C_int"
| "c_type_of REAL = C_double"
| "c_type_of TEXT = C_char_buffer"
| "c_type_of BOOLEAN = C_int"

text \<open>Modelled from the spec: the column "read format" of the missing code generator's table (section 6).\<close>

fun read_format :: "ty \<Rightarrow> string" where
  "read_format INTEGER = ''%d''"
| "read_format REAL = ''%lf''"
| "read_format TEXT = ''%s''"
| "read_format BOOLEAN = ''%d''"

text \<open>Modelled from the spec: the column "write format" of the missing code generator's table (section 6).\<close>

fun write_format :: "ty \<Rightarrow> string" where
  "write_format INTEGER = ''%d''"
| "write_format REAL = ''%f''"
| "write_format TEXT = ''%s''"
| "write_format BOOLEAN = ''%d''"

text \<open>
  Modelled from the spec: the C that the missing code generator emits (section 4.4), as
  the tree of its statements; the specification fixes no layout of the text. A scan call
  has its format, its variable and whether the variable's address is taken (it is not for
  the buffer of a TEXT); a print call has its format and its variable, or prints a string
  literal verbatim. Operators map one to one, so a C expression is the source expression.
\<close>

datatype c_statement =
    C_declaration c_type string
  | C_assign string arith
  | C_scan string string bool
  | C_print string string
  | C_print_literal string
  | C_if rel "c_statement list" "c_statement list option"
  | C_while rel "c_statement list"
  | C_block "c_statement list"

text \<open>
  Modelled from the spec: the missing code generator (section 4.4). Statements are
  translated one by one, in order and with their nesting. The generator reads the type of
  the variable of a Read and of a Write in the symbol table; it has no result on a
  variable that the table does not hold, since it runs only after an analysis without
  errors.
\<close>

fun generate_statement :: "(string \<rightharpoonup> ty) \<Rightarrow> statement \<Rightarrow> c_statement option"
  and generate_statements :: "(string \<rightharpoonup> ty) \<Rightarrow> statement list \<Rightarrow> c_statement list option" where
  "generate_statement table (Assignment l x e) = Some (C_assign x e)"
| "generate_statement table (Read l x) =
     (case table x of
        None \<Rightarrow> None
      | Some \<tau> \<Rightarrow> Some (C_scan (read_format \<tau>) x (\<tau> \<noteq> TEXT)))"
| "generate_statement table (Write l (IdentArg x)) =
     (case table x of
        None \<Rightarrow> None
      | Some \<tau> \<Rightarrow> Some (C_print (write_format \<tau>) x))"
| "generate_statement table (Write l (StringArg s)) = Some (C_print_literal s)"
| "generate_statement table (IfStmt l c thenBranch elseBranch) =
     (case generate_statements table thenBranch of
        None \<Rightarrow> None
      | Some cs \<Rightarrow>
          (case elseBranch of
             None \<Rightarrow> Some (C_if c cs None)
           | Some ss \<Rightarrow>
               (case generate_statements table ss of
                  None \<Rightarrow> None
                | Some es \<Rightarrow> Some (C_if c cs (Some es)))))"
| "generate_statement table (While l c body) =
     (case generate_statements table body of
        None \<Rightarrow> None
      | Some cs \<Rightarrow> Some (C_while c cs))"
| "generate_statement table (Block body) =
     (case generate_statements table body of
        None \<Rightarrow> None
      | Some cs \<Rightarrow> Some (C_block cs))"
| "generate_statements table [] = Some []"
| "generate_statements table (s # ss) =
     (case generate_statement table s of
        None \<Rightarrow> None
      | Some c \<Rightarrow>
          (case generate_statements table ss of
             None \<Rightarrow> None
           | Some cs \<Rightarrow> Some (c # cs)))"

text \<open>
  Modelled from the spec: the declarations that the missing code generator emits (section
  4.4), in their original order.
\<close>

definition generate_declarations :: "var_declaration list \<Rightarrow> c_statement list" where
  "generate_declarations ds = map (\<lambda>d. C_declaration (c_type_of (decl_type d)) (decl_name d)) ds"

text \<open>
  Modelled from the spec: the translation unit of the missing code generator (section
  4.4): the declarations, then the statements.
\<close>

definition generate :: "(string \<rightharpoonup> ty) \<Rightarrow> program \<Rightarrow> c_statement list option" where
  "generate table p =
     (case generate_statements table (statements p) of
        None \<Rightarrow> None
      | Some cs \<Rightarrow> Some (generate_declarations (declarations p) @ cs))"

text \<open>Every statement of the C emitted, with every statement nested in it.\<close>

fun c_nested :: "c_statement \<Rightarrow> c_statement list"
  and all_c_statements :: "c_statement list \<Rightarrow> c_statement list" where
  "c_nested (C_if c thenBranch elseBranch) =
     all_c_statements thenBranch @
     (case elseBranch of None \<Rightarrow> [] | Some cs \<Rightarrow> all_c_statements cs)"
| "c_nested (C_while c body) = all_c_statements body"
| "c_nested (C_block body) = all_c_statements body"
| "c_nested (C_declaration t x) = []"
| "c_nested (C_assign x e) = []"
| "c_nested (C_scan f x a) = []"
| "c_nested (C_print f x) = []"
| "c_nested (C_print_literal s) = []"
| "all_c_statements [] = []"
| "all_c_statements (c # cs) = c # c_nested c @ all_c_statements cs"

text \<open>A program that reads and writes a variable of each type, the writes nested.\<close>

definition four_types_program :: program where
  "four_types_program =
     Program
       [Declaration ''i'' INTEGER 2, Declaration ''r'' REAL 3, Declaration ''t'' TEXT 4,
        Declaration ''b'' BOOLEAN 5]
       [Read 7 ''i'', Read 8 ''r'', Read 9 ''t'', Read 10 ''b'',
        IfStmt 11 (Comparison Less (VarRef ''i'') (VarRef ''r''))
          [Write 12 (IdentArg ''i''), Write 13 (IdentArg ''r'')]
          (Some [While 15 (Comparison Greater (VarRef ''i'') (IntLiteral ''0''))
                   [Write 16 (IdentArg ''t''), Write 17 (IdentArg ''b'')]])]"

subsection \<open>The compiler as a child process\<close>

text \<open>The standard output and the standard error that an outcome of \<^verbatim>\<open>execCmd\<close> carries.\<close>

fun stdout_of :: "exec_result \<Rightarrow> string" where
  "stdout_of (Resolved out err) = out"
| "stdout_of (Rejected shown out err) = out"




section \<open>What the response carries\<close>










text \<open>A payload without an entry is refused before anything else happens, whatever the environment.\<close>

lemma invalid_payload_refused:
  "\<not> truthy (field payload ''entry'') \<Longrightarrow> apicompile e payload fs = (Status400, fs, None)"
  by (simp add: apicompile_def)




section \<open>Paths, the temporary directory and the files written\<close>

lemma basename_no_slash: "CHR ''/'' \<notin> set (basename n)"
  unfolding basename_def
  using set_takeWhileD by fastforce

lemma split_on_no_sep: "sep \<notin> set s \<Longrightarrow> split_on sep s = [s]"
  by (induction s) auto

lemma path_join_segment:
  "CHR ''/'' \<notin> set b \<Longrightarrow> path_join dir b = resolve_segment dir b"
  by (simp add: path_join_def split_on_no_sep)

lemma path_join_basename:
  "path_join dir (basename n) =
     (if basename n = [] \<or> basename n = ''.'' then dir
      else if basename n = ''..'' then butlast dir
      else dir @ [basename n])"
  by (simp add: path_join_segment[OF basename_no_slash] resolve_segment_def)

lemma writeFileSync_frame:
  assumes "writeFileSync p d fs = Inr fs'"
  shows "dirs fs' = dirs fs \<and> p \<notin> dirs fs \<and> (\<forall>q. q \<noteq> p \<longrightarrow> files fs' q = files fs q)"
  using assms by (auto simp: writeFileSync_def split: if_splits)

lemma write_files_frame:
  assumes "dir \<in> dirs fs" "butlast dir \<in> dirs fs" "write_files dir fl fs = (res, fs')"
  shows "dirs fs' = dirs fs \<and> (\<forall>p. files fs' p \<noteq> files fs p \<longrightarrow> p \<noteq> [] \<and> butlast p = dir)"
  using assms
proof (induction fl arbitrary: fs)
  case Nil
  then show ?case by simp
next
  case (Cons f rest)
  show ?case
  proof (cases "get_prop f ''name''")
    case (Inl err)
    with Cons.prems show ?thesis by simp
  next
    case (Inr name)
    show ?thesis
    proof (cases "safe_path dir name")
      case (Inl err)
      with Cons.prems Inr show ?thesis by simp
    next
      case sp: (Inr fname)
      then obtain n where n: "name = JStr n" "fname = path_join dir (basename n)"
        by (auto simp: safe_path_def split: jv.splits)
      show ?thesis
      proof (cases "field f ''content''")
        case (JStr data)
        show ?thesis
        proof (cases "writeFileSync fname data fs")
          case (Inl err)
          with Cons.prems Inr sp JStr show ?thesis by simp
        next
          case w: (Inr fs1)
          from writeFileSync_frame[OF w]
          have d: "dirs fs1 = dirs fs" and nd: "fname \<notin> dirs fs"
            and fr: "\<forall>q. q \<noteq> fname \<longrightarrow> files fs1 q = files fs q" by auto
          from nd Cons.prems(1,2) n have fn: "fname = dir @ [basename n]"
            by (auto simp: path_join_basename split: if_splits)
          from Cons.prems Inr sp JStr w have r: "write_files dir rest fs1 = (res, fs')" by simp
          from Cons.IH[OF _ _ r] d Cons.prems(1,2)
          have ih: "dirs fs' = dirs fs1" "\<forall>p. files fs' p \<noteq> files fs1 p \<longrightarrow> p \<noteq> [] \<and> butlast p = dir"
            by auto
          show ?thesis
          proof (intro conjI allI impI)
            show "dirs fs' = dirs fs" using ih d by simp
          next
            fix p assume "files fs' p \<noteq> files fs p"
            then have "files fs' p \<noteq> files fs1 p \<or> p = fname" using fr by metis
            then show "p \<noteq> []" using ih fn by auto
          next
            fix p assume "files fs' p \<noteq> files fs p"
            then have "files fs' p \<noteq> files fs1 p \<or> p = fname" using fr by metis
            then show "butlast p = dir" using ih fn by auto
          qed
        qed
      qed (use Cons.prems Inr sp in simp_all)
    qed
  qed
qed

lemma hex_digit_inj: "a < 16 \<Longrightarrow> b < 16 \<Longrightarrow> hex_digit a = hex_digit b \<Longrightarrow> a = b"
  unfolding hex_digit_def
  by (rule iffD1[OF nth_eq_iff_index_eq]) auto

lemma hex_digit_not_slash: "a < 16 \<Longrightarrow> hex_digit a \<noteq> CHR ''/''"
proof -
  assume "a < 16"
  then have "hex_digit a \<in> set ''0123456789abcdef''"
    unfolding hex_digit_def by (intro nth_mem) simp
  then show ?thesis by auto
qed

lemma unat_byte_bounds: "unat (b :: 8 word) div 16 < 16" "unat b mod 16 < 16"
proof -
  have "unat b < 256" using unsigned_less[of b] by simp
  then show "unat b div 16 < 16" by simp
  show "unat b mod 16 < 16" by simp
qed

lemma hex_byte_inj: "hex_byte a = hex_byte b \<Longrightarrow> a = b"
proof -
  assume h: "hex_byte a = hex_byte b"
  then have "unat a div 16 = unat b div 16" "unat a mod 16 = unat b mod 16"
    by (auto simp: hex_byte_def intro: hex_digit_inj unat_byte_bounds)
  then have "unat a = unat b"
    by (metis div_mult_mod_eq)
  then show ?thesis by (simp add: word_unat_eq_iff)
qed

lemma hex_inj: "hex as = hex bs \<Longrightarrow> as = bs"
proof (induction as arbitrary: bs)
  case Nil
  then show ?case by (cases bs) (auto simp: hex_def hex_byte_def)
next
  case (Cons a as)
  then obtain b bs' where bs: "bs = b # bs'"
    by (cases bs) (auto simp: hex_def hex_byte_def)
  with Cons.prems have "hex_byte a = hex_byte b" "hex as = hex bs'"
    by (auto simp: hex_def hex_byte_def)
  with Cons.IH bs show ?case by (auto dest: hex_byte_inj)
qed

lemma hex_no_slash: "CHR ''/'' \<notin> set (hex bs)"
proof -
  have "CHR ''/'' \<notin> set (hex_byte b)" for b
    using hex_digit_not_slash[OF unat_byte_bounds(1), of b]
          hex_digit_not_slash[OF unat_byte_bounds(2), of b]
    by (auto simp: hex_byte_def)
  then show ?thesis by (auto simp: hex_def)
qed

lemma tmpDir_path:
  "path_join tmp (''xu_'' @ hex bs) = tmp @ [''xu_'' @ hex bs]"
proof -
  have "CHR ''/'' \<notin> set (''xu_'' @ hex bs)" using hex_no_slash by auto
  then show ?thesis
    by (simp add: path_join_segment resolve_segment_def)
qed

lemma tmpDir_result:
  assumes "tmpDir e fs = Inr (dir, fs0)"
  shows "dir = os_tmpdir e @ [''xu_'' @ hex (randomBytes e)] \<and> files fs0 = files fs \<and>
         dir \<in> dirs fs0 \<and> butlast dir \<in> dirs fs0"
proof -
  from assms have d: "dir = os_tmpdir e @ [''xu_'' @ hex (randomBytes e)]"
    and f: "fs0 = fs\<lparr>dirs := dirs fs \<union> set (ancestors_and_self dir)\<rparr>"
    unfolding tmpDir_def Let_def tmpDir_path mkdirSync_def
    by (auto split: if_splits sum.splits)
  have "dir \<in> set (ancestors_and_self dir)"
    unfolding ancestors_and_self_def set_map
    by (rule image_eqI[where x = "length dir"]) simp_all
  moreover have "butlast dir \<in> set (ancestors_and_self dir)"
    unfolding ancestors_and_self_def set_map
    by (rule image_eqI[where x = "length dir - 1"]) (cases dir; simp add: butlast_conv_take)+
  ultimately show ?thesis using d f by simp
qed

lemma try_block_frame:
  assumes "dir \<in> dirs fs" "butlast dir \<in> dirs fs" "try_block e payload dir fs = (resp, fs')"
  shows "dirs fs' = dirs fs \<and> (\<forall>p. files fs' p \<noteq> files fs p \<longrightarrow> p \<noteq> [] \<and> butlast p = dir)"
proof -
  obtain res fs1 where w: "write_files dir (payload_files payload) fs = (res, fs1)"
    by (cases "write_files dir (payload_files payload) fs") auto
  from write_files_frame[OF assms(1,2) w]
  have f1: "dirs fs1 = dirs fs" "\<forall>p. files fs1 p \<noteq> files fs p \<longrightarrow> p \<noteq> [] \<and> butlast p = dir"
    by auto
  have oc: "path_join dir ''out.c'' = dir @ [''out.c'']"
    by (simp add: path_join_segment resolve_segment_def)
  have "fs' = fs1 \<or> (\<exists>out. writeFileSync (dir @ [''out.c'']) out fs1 = Inr fs')"
    using assms(3) w unfolding try_block_def oc
    by (auto simp: Let_def split: option.splits if_splits sum.splits exec_result.splits)
  then show ?thesis
  proof
    assume "fs' = fs1" with f1 show ?thesis by simp
  next
    assume "\<exists>out. writeFileSync (dir @ [''out.c'']) out fs1 = Inr fs'"
    then obtain out where "writeFileSync (dir @ [''out.c'']) out fs1 = Inr fs'" ..
    from writeFileSync_frame[OF this]
    have "dirs fs' = dirs fs1" "\<forall>q. q \<noteq> dir @ [''out.c''] \<longrightarrow> files fs' q = files fs1 q" by auto
    then have "files fs' p \<noteq> files fs p \<Longrightarrow> files fs1 p \<noteq> files fs p \<or> p = dir @ [''out.c'']" for p
      by metis
    with f1 \<open>dirs fs' = dirs fs1\<close> show ?thesis
      by fastforce
  qed
qed

lemma under_self_child: "under d d" "under d (d @ q)"
  by (simp_all add: under_def)

lemma butlast_under: "p \<noteq> [] \<Longrightarrow> butlast p = d \<Longrightarrow> under d p"
  by (metis append_butlast_last_id under_self_child(2))

lemma siblings_disjoint:
  "a \<noteq> b \<Longrightarrow> under (t @ [a]) p \<Longrightarrow> \<not> under (t @ [b]) p"
proof
  assume ne: "a \<noteq> b" and ua: "under (t @ [a]) p" and ub: "under (t @ [b]) p"
  from ua ub have "t @ [a] = t @ [b]"
    unfolding under_def by (metis length_append_singleton)
  with ne show False by simp
qed

lemma rmSync_effect:
  "(under d p \<longrightarrow> files (rmSync d fs) p = None \<and> p \<notin> dirs (rmSync d fs)) \<and>
   (\<not> under d p \<longrightarrow> files (rmSync d fs) p = files fs p \<and> (p \<in> dirs (rmSync d fs) \<longleftrightarrow> p \<in> dirs fs))"
  by (simp add: rmSync_def)

lemma apicompile_frame:
  assumes "apicompile e payload fs = (resp, fs', sched)"
  shows "(sched = None \<longrightarrow> fs' = fs) \<and>
         (\<forall>dir. sched = Some dir \<longrightarrow>
            dir = os_tmpdir e @ [''xu_'' @ hex (randomBytes e)] \<and> dir \<in> dirs fs' \<and>
            (\<forall>p. files fs' p \<noteq> files fs p \<longrightarrow> p \<noteq> [] \<and> butlast p = dir))"
proof (cases sched)
  case None
  with assms show ?thesis
    by (auto simp: apicompile_def split: if_splits sum.splits prod.splits)
next
  case (Some dir)
  with assms obtain fs0 where t: "tmpDir e fs = Inr (dir, fs0)"
    and b: "try_block e payload dir fs0 = (resp, fs')"
    by (auto simp: apicompile_def split: if_splits sum.splits prod.splits)
  from tmpDir_result[OF t]
  have d: "dir = os_tmpdir e @ [''xu_'' @ hex (randomBytes e)]" and f0: "files fs0 = files fs"
    and m: "dir \<in> dirs fs0" "butlast dir \<in> dirs fs0"
    by auto
  from try_block_frame[OF m b] f0 m(1)
  have "dir \<in> dirs fs'" "\<forall>p. files fs' p \<noteq> files fs p \<longrightarrow> p \<noteq> [] \<and> butlast p = dir"
    by simp_all
  with d Some show ?thesis by simp
qed

text \<open>
  Claim C8, as stated, does not hold of the path the handler computes: for a name such
  as \<^verbatim>\<open>../..\<close>, whose basename is \<^verbatim>\<open>..\<close>, \<^verbatim>\<open>path.join(dir, path.basename(name))\<close>
  is the parent of the per-request directory, not a path inside it.
\<close>

theorem basename_dotdot_counterexample:
  "safe_path sample_dir (JStr ''../..'') = Inr [''tmp''] \<and> \<not> under sample_dir [''tmp'']"
  by code_simp

text \<open>
  Claim C8, amended. For every file of the payload whose name has a proper basename (not
  empty, not \<^verbatim>\<open>.\<close> and not \<^verbatim>\<open>..\<close>), the path the handler writes is the direct child
  of the per-request directory named by that basename, which holds no separator, and the
  entry path is computed the same way. Whatever the names in the payload, every file that
  the write loop creates or changes is a direct child of the per-request directory, and
  no directory changes: no request causes a write outside that directory.
\<close>

theorem files_written_inside_directory:
  assumes "dir \<in> dirs fs" and "butlast dir \<in> dirs fs"
    and "write_files dir fl fs = (res, fs')"
  shows "dirs fs' = dirs fs \<and>
         (\<forall>p. files fs' p \<noteq> files fs p \<longrightarrow> p \<noteq> [] \<and> butlast p = dir) \<and>
         (\<forall>n. CHR ''/'' \<notin> set (basename n) \<and>
               (basename n \<noteq> [] \<and> basename n \<noteq> ''.'' \<and> basename n \<noteq> ''..'' \<longrightarrow>
                safe_path dir (JStr n) = Inr (dir @ [basename n])))"
  using write_files_frame[OF assms] basename_no_slash path_join_basename
  by (simp add: safe_path_def)

theorem files_written_inside_directory_witness:
  "sample_dir \<in> dirs sample_fs_in_request \<and> butlast sample_dir \<in> dirs sample_fs_in_request \<and>
   files (snd (write_files sample_dir
                 [JObj [(''name'', JStr ''../../etc/passwd''), (''content'', JStr ''x'')]]
                 sample_fs_in_request)) [''tmp'', ''xu_000102030405'', ''passwd''] = Some ''x'' \<and>
   files (snd (write_files sample_dir
                 [JObj [(''name'', JStr ''../../etc/passwd''), (''content'', JStr ''x'')]]
                 sample_fs_in_request)) [''etc'', ''passwd''] = files sample_fs_in_request [''etc'', ''passwd''] \<and>
   safe_path sample_dir (JStr ''../../etc/passwd'') = Inr (sample_dir @ [''passwd''])"
proof -
  let ?w = "write_files sample_dir
                 [JObj [(''name'', JStr ''../../etc/passwd''), (''content'', JStr ''x'')]]
                 sample_fs_in_request"
  have a: "sample_dir \<in> dirs sample_fs_in_request"
    by (simp add: sample_fs_in_request_def)
  have b: "butlast sample_dir \<in> dirs sample_fs_in_request"
    by (simp add: sample_fs_in_request_def sample_fs_def sample_dir_def)
  have c: "?w = (fst ?w, snd ?w)" by simp
  have v: "files (snd ?w) [''tmp'', ''xu_000102030405'', ''passwd''] = Some ''x''"
    by code_simp
  have bn: "basename ''../../etc/passwd'' = ''passwd''"
    by code_simp
  from files_written_inside_directory[OF a b c]
  have "files (snd ?w) [''etc'', ''passwd''] \<noteq> files sample_fs_in_request [''etc'', ''passwd'']
          \<longrightarrow> butlast [''etc'', ''passwd''] = sample_dir"
    and "basename ''../../etc/passwd'' \<noteq> [] \<and> basename ''../../etc/passwd'' \<noteq> ''.'' \<and>
         basename ''../../etc/passwd'' \<noteq> ''..'' \<longrightarrow>
         safe_path sample_dir (JStr ''../../etc/passwd'') =
           Inr (sample_dir @ [basename ''../../etc/passwd''])"
    by blast+
  then have "files (snd ?w) [''etc'', ''passwd''] = files sample_fs_in_request [''etc'', ''passwd'']"
    and "safe_path sample_dir (JStr ''../../etc/passwd'') = Inr (sample_dir @ [''passwd''])"
    by (simp_all add: sample_dir_def bn)
  with a b v show ?thesis by simp
qed

text \<open>
  Claim C7, as stated, does not hold of the working area: it is not discarded when the
  request completes. When the handler has answered, the directory of the request is
  still there, with the source file and \<^verbatim>\<open>out.c\<close> in it; the \<^verbatim>\<open>finally\<close> block only
  schedules its removal, to run 1000 ms later (lines 227-236, "cleanup directory after
  short delay to allow clients to fetch results").
\<close>

theorem working_directory_remains_counterexample:
  "snd (snd (apicompile (sample_env generated_c_outcome) (request_for valid_source) sample_fs))
     = Some sample_dir \<and>
   files (fst (snd (apicompile (sample_env generated_c_outcome) (request_for valid_source)
                      sample_fs))) (sample_dir @ [''program.xu'']) = Some valid_source \<and>
   files (fst (snd (apicompile (sample_env generated_c_outcome) (request_for valid_source)
                      sample_fs))) (sample_dir @ [''out.c''])
     = Some (stdout_of generated_c_outcome) \<and>
   sample_dir \<in> dirs (fst (snd (apicompile (sample_env generated_c_outcome)
                                  (request_for valid_source) sample_fs)))"
  by code_simp

text \<open>
  Claim C7, amended. Every compilation request that passes validation works in a
  directory of its own, \<^verbatim>\<open>os.tmpdir()/xu_<hex>\<close>, named by the six random bytes it draws:
  each file the handler creates or changes is a direct child of that directory. That
  state is discarded not when the request completes but by the removal that the handler
  schedules to run after it: the directory is there until then, and the removal deletes
  it with everything under it and changes no file outside it, so nothing of the request
  is retained. A request that draws other bytes works in a directory with no path in
  common, so neither touches the working area of the other. A request refused with
  status 400 changes nothing.
\<close>

theorem request_confined_to_its_directory:
  assumes "apicompile e payload fs = (resp, fs', sched)"
  shows "(sched = None \<longrightarrow> fs' = fs) \<and>
         (\<forall>dir. sched = Some dir \<longrightarrow>
            dir = os_tmpdir e @ [''xu_'' @ hex (randomBytes e)] \<and> dir \<in> dirs fs' \<and>
            (\<forall>p. files fs' p \<noteq> files fs p \<longrightarrow> p \<noteq> [] \<and> butlast p = dir) \<and>
            (\<forall>p. under dir p \<longrightarrow>
                  files (cleanup sched fs') p = None \<and> p \<notin> dirs (cleanup sched fs')) \<and>
            (\<forall>p. \<not> under dir p \<longrightarrow> files (cleanup sched fs') p = files fs p) \<and>
            (\<forall>bs p. bs \<noteq> randomBytes e \<and> under dir p \<longrightarrow>
                  \<not> under (os_tmpdir e @ [''xu_'' @ hex bs]) p))"
proof (intro conjI allI impI)
  show "sched = None \<Longrightarrow> fs' = fs"
    using apicompile_frame[OF assms] by simp
next
  fix dir assume s: "sched = Some dir"
  with apicompile_frame[OF assms]
  show d: "dir = os_tmpdir e @ [''xu_'' @ hex (randomBytes e)]" by simp
  from s apicompile_frame[OF assms]
  show "dir \<in> dirs fs'" by blast
  from s apicompile_frame[OF assms]
  have fr: "\<forall>p. files fs' p \<noteq> files fs p \<longrightarrow> p \<noteq> [] \<and> butlast p = dir" by simp
  {
    fix p assume "files fs' p \<noteq> files fs p"
    with fr show "p \<noteq> []" by simp
  next
    fix p assume "files fs' p \<noteq> files fs p"
    with fr show "butlast p = dir" by simp
  next
    fix p assume "under dir p"
    then show "files (cleanup sched fs') p = None" "p \<notin> dirs (cleanup sched fs')"
      using s by (simp_all add: cleanup_def rmSync_def)
  next
    fix p assume n: "\<not> under dir p"
    then have "files (cleanup sched fs') p = files fs' p"
      using s by (simp add: cleanup_def rmSync_def)
    moreover have "files fs' p = files fs p"
      using fr n butlast_under by blast
    ultimately show "files (cleanup sched fs') p = files fs p" by simp
  next
    fix bs p assume "bs \<noteq> randomBytes e \<and> under dir p"
    then have "''xu_'' @ hex (randomBytes e) \<noteq> ''xu_'' @ hex bs" and u: "under dir p"
      using hex_inj by auto
    from siblings_disjoint[OF this(1), of "os_tmpdir e" p] u d
    show "\<not> under (os_tmpdir e @ [''xu_'' @ hex bs]) p" by simp
  }
qed

theorem request_confined_to_its_directory_witness:
  "snd (snd (apicompile (sample_env generated_c_outcome) (request_for valid_source) sample_fs))
     = Some sample_dir \<and>
   sample_dir \<in> dirs (fst (snd (apicompile (sample_env generated_c_outcome)
                                  (request_for valid_source) sample_fs))) \<and>
   files (cleanup (Some sample_dir)
            (fst (snd (apicompile (sample_env generated_c_outcome) (request_for valid_source)
                         sample_fs))))
     (sample_dir @ [''program.xu'']) = None \<and>
   sample_dir \<notin> dirs (cleanup (Some sample_dir)
            (fst (snd (apicompile (sample_env generated_c_outcome) (request_for valid_source)
                         sample_fs)))) \<and>
   files (cleanup (Some sample_dir)
            (fst (snd (apicompile (sample_env generated_c_outcome) (request_for valid_source)
                         sample_fs))))
     [''app'', ''xu_compiler.py''] = files sample_fs [''app'', ''xu_compiler.py'']"
proof -
  let ?a = "apicompile (sample_env generated_c_outcome) (request_for valid_source) sample_fs"
  have s: "snd (snd ?a) = Some sample_dir" by code_simp
  have a: "?a = (fst ?a, fst (snd ?a), Some sample_dir)"
    using s by (metis prod.collapse)
  have u: "under sample_dir (sample_dir @ [''program.xu''])" "under sample_dir sample_dir"
    by (simp_all add: under_def)
  have n: "\<not> under sample_dir [''app'', ''xu_compiler.py'']"
    by (simp add: under_def sample_dir_def)
  from request_confined_to_its_directory[OF a] u n
  have "sample_dir \<in> dirs (fst (snd ?a))"
    and "files (cleanup (Some sample_dir) (fst (snd ?a))) (sample_dir @ [''program.xu'']) = None"
    and "sample_dir \<notin> dirs (cleanup (Some sample_dir) (fst (snd ?a)))"
    and "files (cleanup (Some sample_dir) (fst (snd ?a))) [''app'', ''xu_compiler.py'']
           = files sample_fs [''app'', ''xu_compiler.py'']"
    by blast+
  with s show ?thesis by simp
qed

section \<open>The standard input of the compiled program\<close>

lemma stdin_string_first:
  "field payload ''stdin'' = JStr s \<Longrightarrow> inputString payload = Inr s"
  by (simp add: inputString_def)

lemma mapM_String_strings: "mapM_String Inr (map JStr ss) = Inr ss"
  by (induction ss) simp_all

lemma inputs_of_strings:
  assumes "\<And>s. field payload ''stdin'' \<noteq> JStr s"
    and "field payload ''inputs'' = JArr (map JStr ss)" and "ss \<noteq> []"
  shows "inputString payload = Inr (join_lines ss @ [LF])"
proof -
  from assms(3) obtain s ss' where ss: "ss = s # ss'" by (cases ss) auto
  show ?thesis
    using assms(1,2) mapM_String_strings[of ss]
    by (cases "field payload ''stdin''") (auto simp: inputString_def joined_inputs_def ss)
qed

lemma mapM_String_values:
  "mapM_String (\<lambda>i. get_prop i ''value'') (map (\<lambda>v. JObj [(''value'', JStr v)]) vs) = Inr vs"
  by (induction vs) simp_all

lemma inputs_of_value_objects:
  assumes "\<And>s. field payload ''stdin'' \<noteq> JStr s"
    and "field payload ''inputs'' = JArr (map (\<lambda>v. JObj [(''value'', JStr v)]) vs)" and "vs \<noteq> []"
  shows "inputString payload = Inr (join_lines vs @ [LF])"
proof -
  from assms(3) obtain v vs' where vs: "vs = v # vs'" by (cases vs) auto
  show ?thesis
    using assms(1,2) mapM_String_values[of vs]
    by (cases "field payload ''stdin''") (auto simp: inputString_def joined_inputs_def vs)
qed

lemma no_inputs_empty_stdin:
  assumes "\<And>s. field payload ''stdin'' \<noteq> JStr s"
    and "field payload ''inputs'' = JArr [] \<or> \<not> isArray (field payload ''inputs'')"
  shows "inputString payload = Inr []"
  using assms
  by (cases "field payload ''stdin''"; cases "field payload ''inputs''")
     (auto simp: inputString_def joined_inputs_def)

text \<open>
  Claim C10 says that a non-empty array of plain values is stringified and joined. The
  code decides between the two shapes of array with
  \<^verbatim>\<open>typeof inputs[0] === 'object' && 'value' in inputs[0]\<close>, and \<^verbatim>\<open>typeof null\<close> is
  \<^verbatim>\<open>'object'\<close>: for the array \<^verbatim>\<open>[null]\<close> the operator \<^verbatim>\<open>in\<close> throws a TypeError. It is
  thrown inside the \<^verbatim>\<open>try\<close> of gcc, whose \<^verbatim>\<open>catch\<close> reports it as the output of gcc,
  and the program is never run.
\<close>

theorem null_first_input_throws:
  "inputString payload_null_input = Inl TypeErrorInOperator \<and>
   map_option compile_stderr
     (json_body (fst (apicompile (sample_env (Resolved ''int main(){}'' [])) payload_null_input
                   sample_fs))) = Some (Some (Inl TypeErrorInOperator)) \<and>
   map_option run_stdout
     (json_body (fst (apicompile (sample_env (Resolved ''int main(){}'' [])) payload_null_input
                   sample_fs))) = Some None"
  by code_simp

theorem null_first_input_throws_witness:
  "inputString payload_null_input \<noteq> Inr (''null'' @ [LF]) \<and>
   inputString payload_null_input \<noteq> Inr []"
  using null_first_input_throws by simp

section \<open>The grammar of write statements\<close>















text \<open>The grammar is not empty: a program that writes an identifier is accepted.\<close>

lemma accepted_example:
  "ProgramRule (header_tokens @ [tok Keyword ''ESCREVA'' 4 1, tok Identifier ''idade'' 4 9, tok EndMarker [] 5 1])
     (Program [Declaration ''idade'' INTEGER 2] [Write 4 (IdentArg ''idade'')])"
proof -
  have d: "Declarations [tok Identifier ''idade'' 2 1, tok Punctuation '':'' 2 7, tok Keyword ''INTEIRO'' 2 9]
            [Declaration (lexeme (tok Identifier ''idade'' 2 1)) INTEGER (line (tok Identifier ''idade'' 2 1))]"
    by (rule Declarations_more) (simp_all add: tok_def sym_def Declarations_empty)
  have "Statement [tok Keyword ''ESCREVA'' 4 1, tok Identifier ''idade'' 4 9]
          (Write (line (tok Keyword ''ESCREVA'' 4 1)) (IdentArg (lexeme (tok Identifier ''idade'' 4 9))))"
    by (rule Write_ident) (simp_all add: kw_def tok_def)
  from Statements_more[OF this Statements_empty]
  have s: "Statements [tok Keyword ''ESCREVA'' 4 1, tok Identifier ''idade'' 4 9] [Write 4 (IdentArg ''idade'')]"
    by (simp add: tok_def)
  have "ProgramRule (tok Punctuation '':'' 1 1 # tok Keyword ''DECLARACOES'' 1 3 #
           [tok Identifier ''idade'' 2 1, tok Punctuation '':'' 2 7, tok Keyword ''INTEIRO'' 2 9] @
           tok Punctuation '':'' 3 1 # tok Keyword ''PROGRAMA'' 3 3 #
           [tok Keyword ''ESCREVA'' 4 1, tok Identifier ''idade'' 4 9] @ [tok EndMarker [] 5 1])
          (Program [Declaration (lexeme (tok Identifier ''idade'' 2 1)) INTEGER (line (tok Identifier ''idade'' 2 1))]
             [Write 4 (IdentArg ''idade'')])"
    by (rule Program_rule[OF _ _ d _ _ s]) (simp_all add: sym_def kw_def tok_def)
  then show ?thesis by (simp add: header_tokens_def tok_def)
qed





section \<open>The semantic analyzer collects every error\<close>

lemma build_table_result:
  "fst (build_table ds table) = declared_types ds ++ table"
proof (induction ds arbitrary: table)
  case Nil
  then show ?case by (simp add: declared_types_def)
next
  case (Cons d ds)
  obtain x \<tau> l where d: "d = Declaration x \<tau> l" by (cases d)
  have m: "declared_types (d # ds) = (declared_types ds)(x \<mapsto> \<tau>)"
    by (simp add: declared_types_def d)
  show ?case
  proof (cases "table x")
    case None
    have step: "build_table (d # ds) table = build_table ds (table(x \<mapsto> \<tau>))"
      using None by (simp add: d)
    have "fst (build_table (d # ds) table) = declared_types ds ++ table(x \<mapsto> \<tau>)"
      unfolding step by (rule Cons)
    also have "\<dots> = (declared_types ds)(x \<mapsto> \<tau>) ++ table"
      using None by (auto simp: map_add_def fun_eq_iff split: option.splits)
    finally show ?thesis unfolding m .
  next
    case (Some a)
    have "fst (build_table (d # ds) table) = declared_types ds ++ table"
      using Cons[of table] Some by (cases "build_table ds table") (simp add: d)
    also have "\<dots> = (declared_types ds)(x \<mapsto> \<tau>) ++ table"
      using Some by (auto simp: map_add_def fun_eq_iff split: option.splits)
    finally show ?thesis unfolding m .
  qed
qed

lemma build_table_errors:
  "dom table = set seen \<Longrightarrow>
   snd (build_table ds table) = map (\<lambda>(x, l). Redeclaration x l) (repeated_declarations ds seen)"
proof (induction ds arbitrary: table seen)
  case Nil
  then show ?case by simp
next
  case (Cons d ds)
  obtain x \<tau> l where d: "d = Declaration x \<tau> l" by (cases d)
  show ?case
  proof (cases "table x")
    case None
    then have n: "x \<notin> set seen" using Cons.prems by auto
    have step: "build_table (d # ds) table = build_table ds (table(x \<mapsto> \<tau>))"
      using None by (simp add: d)
    have "dom (table(x \<mapsto> \<tau>)) = set (x # seen)" using Cons.prems by auto
    from Cons.IH[OF this] have "snd (build_table (d # ds) table) =
        map (\<lambda>(x, l). Redeclaration x l) (repeated_declarations ds (x # seen))"
      unfolding step .
    with n show ?thesis by (simp add: d)
  next
    case (Some a)
    then have "x \<in> set seen" using Cons.prems by auto
    moreover have "snd (build_table (d # ds) table) = Redeclaration x l # snd (build_table ds table)"
      using Some by (cases "build_table ds table") (simp add: d)
    ultimately show ?thesis using Cons.IH[OF Cons.prems] by (simp add: d)
  qed
qed

lemma repeated_none:
  "repeated_declarations ds seen = [] \<longleftrightarrow>
   distinct (map decl_name ds) \<and> set (map decl_name ds) \<inter> set seen = {}"
proof (induction ds seen rule: repeated_declarations.induct)
  case (1 seen)
  then show ?case by simp
next
  case (2 x \<tau> l ds seen)
  then show ?case by auto
qed

lemma infer_has_type: "infer bt table e = Known \<tau> \<longleftrightarrow> has_type bt table e \<tau>"
proof
  show "infer bt table e = Known \<tau> \<Longrightarrow> has_type bt table e \<tau>"
  proof (induction e arbitrary: \<tau>)
    case (BinaryOp f a b)
    then show ?case
      by (auto split: inferred.splits intro: has_type.intros)
  qed (auto split: option.splits intro: has_type.intros)
next
  show "has_type bt table e \<tau> \<Longrightarrow> infer bt table e = Known \<tau>"
    by (induction rule: has_type.induct) auto
qed

lemma check_arith_known:
  "check_arith table l e = [] \<longleftrightarrow> (\<exists>\<tau>. infer bt table e = Known \<tau>)"
  by (induction e) (auto simp: check_declared_def split: option.splits inferred.splits)

lemma check_rel_ok: "check_rel bt table l r = [] \<longleftrightarrow> rel_ok bt table r"
proof (induction r)
  case (Comparison c a b)
  show ?case
  proof
    assume h: "check_rel bt table l (Comparison c a b) = []"
    then obtain \<tau> \<sigma> where t: "infer bt table a = Known \<tau>" "infer bt table b = Known \<sigma>"
      using check_arith_known[of table l _ bt] by auto
    with h have "numeric \<tau>" "numeric \<sigma>"
      by (auto simp: check_numeric_def split: if_splits)
    with t show "rel_ok bt table (Comparison c a b)"
      by (auto intro: rel_ok.intros simp: infer_has_type)
  next
    assume "rel_ok bt table (Comparison c a b)"
    then obtain \<tau> \<sigma> where "has_type bt table a \<tau>" "numeric \<tau>" "has_type bt table b \<sigma>" "numeric \<sigma>"
      by (auto elim: rel_ok.cases)
    then have "infer bt table a = Known \<tau>" "infer bt table b = Known \<sigma>" "numeric \<tau>" "numeric \<sigma>"
      by (simp_all add: infer_has_type)
    then show "check_rel bt table l (Comparison c a b) = []"
      using check_arith_known[of table l a bt] check_arith_known[of table l b bt]
      by (simp add: check_numeric_def)
  qed
next
  case (LogicalAnd p q)
  then show ?case by (auto intro: rel_ok.intros elim: rel_ok.cases)
next
  case (LogicalOr p q)
  then show ?case by (auto intro: rel_ok.intros elim: rel_ok.cases)
next
  case (ParenRel p)
  then show ?case by (auto intro: rel_ok.intros elim: rel_ok.cases)
qed

lemma check_assignable_ok:
  "table x = Some \<tau> \<Longrightarrow> infer bt table e = Known \<sigma> \<Longrightarrow>
   check_assignable bt table l x e = [] \<longleftrightarrow> coercible \<sigma> \<tau>"
  by (simp add: check_assignable_def)

lemma has_type_unique: "has_type bt table e \<tau> \<Longrightarrow> has_type bt table e \<sigma> \<Longrightarrow> \<tau> = \<sigma>"
  using infer_has_type by (metis inferred.inject)

lemma check_statement_ok:
  "check_statement bt table s = [] \<longleftrightarrow> statement_ok bt table s"
  "check_statements bt table ss = [] \<longleftrightarrow> statements_ok bt table ss"
proof (induction bt table s and bt table ss rule: check_statement_check_statements.induct)
  case (1 bt table l x e)
  show ?case
  proof
    assume h: "check_statement bt table (Assignment l x e) = []"
    then obtain \<tau> \<sigma> where t: "table x = Some \<tau>" "infer bt table e = Known \<sigma>"
      using check_arith_known[of table l e bt]
      by (auto simp: check_declared_def split: option.splits)
    with h have "coercible \<sigma> \<tau>" by (simp add: check_assignable_ok)
    with t show "statement_ok bt table (Assignment l x e)"
      by (auto intro: ok_assignment simp: infer_has_type)
  next
    assume "statement_ok bt table (Assignment l x e)"
    then obtain \<tau> \<sigma> where "table x = Some \<tau>" "has_type bt table e \<sigma>" "coercible \<sigma> \<tau>"
      by (auto elim: statement_ok.cases)
    then have "table x = Some \<tau>" "infer bt table e = Known \<sigma>" "coercible \<sigma> \<tau>"
      by (simp_all add: infer_has_type)
    then show "check_statement bt table (Assignment l x e) = []"
      using check_arith_known[of table l e bt]
      by (simp add: check_declared_def check_assignable_ok)
  qed
next
  case (2 bt table l x)
  then show ?case
    by (auto simp: check_declared_def split: option.splits intro: ok_read elim: statement_ok.cases)
next
  case (3 bt table l x)
  then show ?case
    by (auto simp: check_declared_def split: option.splits intro: ok_write_ident
             elim: statement_ok.cases)
next
  case (4 bt table l s)
  then show ?case by (auto intro: ok_write_string)
next
  case (5 bt table l c thenBranch elseBranch)
  then show ?case
    by (cases elseBranch)
       (auto simp: check_rel_ok intro: ok_if ok_if_else elim: statement_ok.cases)
next
  case (6 bt table l c body)
  then show ?case
    by (auto simp: check_rel_ok intro: ok_while elim: statement_ok.cases)
next
  case (7 bt table body)
  then show ?case by (auto intro: ok_block elim: statement_ok.cases)
next
  case (8 bt table)
  then show ?case by (auto intro: ok_nil)
next
  case (9 bt table s ss)
  then show ?case by (auto intro: ok_cons elim: statements_ok.cases)
qed

lemma analyze_empty_iff: "snd (analyze bt p) = [] \<longleftrightarrow> well_typed bt p"
proof -
  obtain table errs where b: "build_table (declarations p) Map.empty = (table, errs)"
    by (cases "build_table (declarations p) Map.empty")
  from build_table_result[of "declarations p" Map.empty] b
  have t: "table = declared_types (declarations p)" by simp
  from build_table_errors[of Map.empty "[]" "declarations p"] b
  have "errs = map (\<lambda>(x, l). Redeclaration x l) (repeated_declarations (declarations p) [])"
    by simp
  then have e: "errs = [] \<longleftrightarrow> distinct (map decl_name (declarations p))"
    using repeated_none[of "declarations p" "[]"] by simp
  show ?thesis
    using b t e check_statement_ok(2)[of bt table "statements p"]
    by (simp add: analyze_def well_typed_def)
qed

lemma check_statements_append:
  "check_statements bt table (ss @ ts) = check_statements bt table ss @ check_statements bt table ts"
  by (induction ss) simp_all











lemma analyze_table: "fst (analyze bt p) = declared_types (declarations p)"
  using build_table_result[of "declarations p" Map.empty]
  by (cases "build_table (declarations p) Map.empty") (simp add: analyze_def)

lemma analyze_errors:
  "snd (analyze bt p) =
     map (\<lambda>(x, l). Redeclaration x l) (repeated_declarations (declarations p) []) @
     check_statements bt (fst (analyze bt p)) (statements p)"
  using build_table_errors[of Map.empty "[]" "declarations p"]
  by (cases "build_table (declarations p) Map.empty") (simp add: analyze_def)






section \<open>The type mapping in the generated C\<close>

lemma generate_defined:
  "check_statement bt table s = [] \<Longrightarrow> \<exists>c. generate_statement table s = Some c"
  "check_statements bt table ss = [] \<Longrightarrow> \<exists>cs. generate_statements table ss = Some cs"
proof (induction table s and table ss rule: generate_statement_generate_statements.induct)
  case (5 table l c thenBranch elseBranch)
  then show ?case by (cases elseBranch) fastforce+
qed (auto simp: check_declared_def split: option.splits)

lemma scans_generated:
  "generate_statement table s = Some c \<Longrightarrow> Read l x \<in> set (s # nested s) \<Longrightarrow> table x = Some \<tau> \<Longrightarrow>
   C_scan (read_format \<tau>) x (\<tau> \<noteq> TEXT) \<in> set (c # c_nested c)"
  "generate_statements table ss = Some cs \<Longrightarrow> Read l x \<in> set (all_statements ss) \<Longrightarrow>
   table x = Some \<tau> \<Longrightarrow> C_scan (read_format \<tau>) x (\<tau> \<noteq> TEXT) \<in> set (all_c_statements cs)"
proof (induction table s and table ss arbitrary: c and cs
       rule: generate_statement_generate_statements.induct)
  case (5 table l' c' thenBranch elseBranch)
  then show ?case
    by (cases elseBranch) (auto split: option.splits)
next
  case (9 table s ss)
  then show ?case
    by (auto split: option.splits)
qed (auto split: option.splits)

lemma prints_generated:
  "generate_statement table s = Some c \<Longrightarrow> Write l (IdentArg x) \<in> set (s # nested s) \<Longrightarrow>
   table x = Some \<tau> \<Longrightarrow> C_print (write_format \<tau>) x \<in> set (c # c_nested c)"
  "generate_statements table ss = Some cs \<Longrightarrow> Write l (IdentArg x) \<in> set (all_statements ss) \<Longrightarrow>
   table x = Some \<tau> \<Longrightarrow> C_print (write_format \<tau>) x \<in> set (all_c_statements cs)"
proof (induction table s and table ss arbitrary: c and cs
       rule: generate_statement_generate_statements.induct)
  case (5 table l' c' thenBranch elseBranch)
  then show ?case
    by (cases elseBranch) (auto split: option.splits)
next
  case (9 table s ss)
  then show ?case
    by (auto split: option.splits)
qed (auto split: option.splits)

lemma scans_and_prints_from_table:
  "generate_statement table s = Some c \<Longrightarrow>
   (\<forall>f x a. C_scan f x a \<in> set (c # c_nested c) \<longrightarrow>
      (\<exists>\<tau>. table x = Some \<tau> \<and> f = read_format \<tau> \<and> a = (\<tau> \<noteq> TEXT))) \<and>
   (\<forall>f x. C_print f x \<in> set (c # c_nested c) \<longrightarrow>
      (\<exists>\<tau>. table x = Some \<tau> \<and> f = write_format \<tau>)) \<and>
   (\<forall>t x. C_declaration t x \<notin> set (c # c_nested c))"
  "generate_statements table ss = Some cs \<Longrightarrow>
   (\<forall>f x a. C_scan f x a \<in> set (all_c_statements cs) \<longrightarrow>
      (\<exists>\<tau>. table x = Some \<tau> \<and> f = read_format \<tau> \<and> a = (\<tau> \<noteq> TEXT))) \<and>
   (\<forall>f x. C_print f x \<in> set (all_c_statements cs) \<longrightarrow>
      (\<exists>\<tau>. table x = Some \<tau> \<and> f = write_format \<tau>)) \<and>
   (\<forall>t x. C_declaration t x \<notin> set (all_c_statements cs))"
proof (induction table s and table ss arbitrary: c and cs
       rule: generate_statement_generate_statements.induct)
  case (5 table l' c' thenBranch elseBranch)
  then show ?case
    by (cases elseBranch) (auto split: option.splits)
next
  case (9 table s ss)
  from 9(3) obtain c cs' where g: "generate_statement table s = Some c"
    "generate_statements table ss = Some cs'" "cs = c # cs'"
    by (auto split: option.splits)
  from 9(1)[OF g(1)] 9(2)[OF g(1) g(2)] g(3) show ?case
    by auto
qed (auto split: option.splits)

lemma all_c_statements_append:
  "all_c_statements (as @ bs) = all_c_statements as @ all_c_statements bs"
  by (induction as) simp_all

lemma all_c_statements_declarations:
  "all_c_statements (generate_declarations ds) = generate_declarations ds"
  by (induction ds) (simp_all add: generate_declarations_def)

lemma declared_types_intro:
  "distinct (map decl_name ds) \<Longrightarrow> Declaration x \<tau> l \<in> set ds \<Longrightarrow> declared_types ds x = Some \<tau>"
proof -
  assume d: "distinct (map decl_name ds)" and m: "Declaration x \<tau> l \<in> set ds"
  have "map fst (map (\<lambda>d. (decl_name d, decl_type d)) ds) = map decl_name ds"
    by simp
  with d have "distinct (map fst (map (\<lambda>d. (decl_name d, decl_type d)) ds))"
    by metis
  moreover from m have "(x, \<tau>) \<in> set (map (\<lambda>d. (decl_name d, decl_type d)) ds)"
    by force
  ultimately show ?thesis
    unfolding declared_types_def by (rule map_of_is_SomeI)
qed

lemma table_formats:
  "c_type_of \<tau> = (case \<tau> of INTEGER \<Rightarrow> C_int | REAL \<Rightarrow> C_double | TEXT \<Rightarrow> C_char_buffer
                      | BOOLEAN \<Rightarrow> C_int)"
  "read_format \<tau> = (case \<tau> of INTEGER \<Rightarrow> ''%d'' | REAL \<Rightarrow> ''%lf'' | TEXT \<Rightarrow> ''%s''
                       | BOOLEAN \<Rightarrow> ''%d'')"
  "write_format \<tau> = (case \<tau> of INTEGER \<Rightarrow> ''%d'' | REAL \<Rightarrow> ''%f'' | TEXT \<Rightarrow> ''%s''
                        | BOOLEAN \<Rightarrow> ''%d'')"
  by (cases \<tau>; simp)+

lemma generated_for_declared:
  assumes "snd (analyze bt p) = []"
  shows "\<exists>cs. generate (fst (analyze bt p)) p = Some (generate_declarations (declarations p) @ cs) \<and>
           generate_statements (declared_types (declarations p)) (statements p) = Some cs \<and>
           distinct (map decl_name (declarations p))"
proof -
  from assms have w: "well_typed bt p" by (simp add: analyze_empty_iff)
  have t: "fst (analyze bt p) = declared_types (declarations p)" by (rule analyze_table)
  from assms analyze_errors[of bt p]
  have "check_statements bt (declared_types (declarations p)) (statements p) = []"
    by (simp add: t)
  from generate_defined(2)[OF this] obtain cs where
    "generate_statements (declared_types (declarations p)) (statements p) = Some cs" ..
  with w t show ?thesis by (simp add: generate_def well_typed_def)
qed


text \<open>
  Claim C4. For every declared variable of a program that the analysis accepts, the code
  generator follows the fixed table: INTEIRO (INTEGER) is \<^verbatim>\<open>int\<close>, read and written with
  \<^verbatim>\<open>%d\<close>; REAL is \<^verbatim>\<open>double\<close>, read with \<^verbatim>\<open>%lf\<close> and written with \<^verbatim>\<open>%f\<close>; TEXTO
  (TEXT) is a character buffer with \<^verbatim>\<open>%s\<close>; LOGICO (BOOLEAN) is \<^verbatim>\<open>int\<close> with
  \<^verbatim>\<open>%d\<close>. The declaration emitted for the variable has that C type; every Read of it,
  at any depth, is emitted as a scan with that read format, and every Write of it as a
  print with that write format; and no declaration, scan or print of the variable in the
  C emitted has another type or format.
\<close>

theorem type_mapping_in_generated_c:
  assumes "snd (analyze bt p) = []"
  shows "\<exists>c. generate (fst (analyze bt p)) p = Some c \<and>
     (\<forall>x \<tau> l. Declaration x \<tau> l \<in> set (declarations p) \<longrightarrow>
        C_declaration (case \<tau> of INTEGER \<Rightarrow> C_int | REAL \<Rightarrow> C_double
                                 | TEXT \<Rightarrow> C_char_buffer | BOOLEAN \<Rightarrow> C_int) x \<in> set c \<and>
        (\<forall>l'. Read l' x \<in> set (all_statements (statements p)) \<longrightarrow>
           C_scan (case \<tau> of INTEGER \<Rightarrow> ''%d'' | REAL \<Rightarrow> ''%lf'' | TEXT \<Rightarrow> ''%s''
                             | BOOLEAN \<Rightarrow> ''%d'') x (\<tau> \<noteq> TEXT) \<in> set (all_c_statements c)) \<and>
        (\<forall>l'. Write l' (IdentArg x) \<in> set (all_statements (statements p)) \<longrightarrow>
           C_print (case \<tau> of INTEGER \<Rightarrow> ''%d'' | REAL \<Rightarrow> ''%f'' | TEXT \<Rightarrow> ''%s''
                              | BOOLEAN \<Rightarrow> ''%d'') x \<in> set (all_c_statements c)) \<and>
        (\<forall>t. C_declaration t x \<in> set (all_c_statements c) \<longrightarrow>
           t = (case \<tau> of INTEGER \<Rightarrow> C_int | REAL \<Rightarrow> C_double | TEXT \<Rightarrow> C_char_buffer
                          | BOOLEAN \<Rightarrow> C_int)) \<and>
        (\<forall>f a. C_scan f x a \<in> set (all_c_statements c) \<longrightarrow>
           f = (case \<tau> of INTEGER \<Rightarrow> ''%d'' | REAL \<Rightarrow> ''%lf'' | TEXT \<Rightarrow> ''%s''
                          | BOOLEAN \<Rightarrow> ''%d'') \<and> a = (\<tau> \<noteq> TEXT)) \<and>
        (\<forall>f. C_print f x \<in> set (all_c_statements c) \<longrightarrow>
           f = (case \<tau> of INTEGER \<Rightarrow> ''%d'' | REAL \<Rightarrow> ''%f'' | TEXT \<Rightarrow> ''%s''
                          | BOOLEAN \<Rightarrow> ''%d'')))"
proof -
  let ?ds = "declarations p"
  let ?table = "declared_types ?ds"
  from generated_for_declared[OF assms] obtain cs where
    g: "generate (fst (analyze bt p)) p = Some (generate_declarations ?ds @ cs)"
    and s: "generate_statements ?table (statements p) = Some cs"
    and d: "distinct (map decl_name ?ds)"
    by blast
  let ?c = "generate_declarations ?ds @ cs"
  have flat: "all_c_statements ?c = generate_declarations ?ds @ all_c_statements cs"
    by (simp add: all_c_statements_append all_c_statements_declarations)
  note from_table = scans_and_prints_from_table(2)[OF s]
  have "\<forall>x \<tau> l. Declaration x \<tau> l \<in> set ?ds \<longrightarrow>
        C_declaration (c_type_of \<tau>) x \<in> set ?c \<and>
        (\<forall>l'. Read l' x \<in> set (all_statements (statements p)) \<longrightarrow>
           C_scan (read_format \<tau>) x (\<tau> \<noteq> TEXT) \<in> set (all_c_statements ?c)) \<and>
        (\<forall>l'. Write l' (IdentArg x) \<in> set (all_statements (statements p)) \<longrightarrow>
           C_print (write_format \<tau>) x \<in> set (all_c_statements ?c)) \<and>
        (\<forall>t. C_declaration t x \<in> set (all_c_statements ?c) \<longrightarrow> t = c_type_of \<tau>) \<and>
        (\<forall>f a. C_scan f x a \<in> set (all_c_statements ?c) \<longrightarrow>
           f = read_format \<tau> \<and> a = (\<tau> \<noteq> TEXT)) \<and>
        (\<forall>f. C_print f x \<in> set (all_c_statements ?c) \<longrightarrow> f = write_format \<tau>)"
  proof (intro allI impI)
    fix x \<tau> l assume m: "Declaration x \<tau> l \<in> set ?ds"
    from declared_types_intro[OF d m] have tx: "?table x = Some \<tau>" .
    have 1: "C_declaration (c_type_of \<tau>) x \<in> set ?c"
      using m by (force simp: generate_declarations_def)
    have 2: "\<forall>l'. Read l' x \<in> set (all_statements (statements p)) \<longrightarrow>
           C_scan (read_format \<tau>) x (\<tau> \<noteq> TEXT) \<in> set (all_c_statements ?c)"
      unfolding flat using scans_generated(2)[OF s _ tx] by auto
    have 3: "\<forall>l'. Write l' (IdentArg x) \<in> set (all_statements (statements p)) \<longrightarrow>
           C_print (write_format \<tau>) x \<in> set (all_c_statements ?c)"
      unfolding flat using prints_generated(2)[OF s _ tx] by auto
    have 4: "\<forall>t. C_declaration t x \<in> set (all_c_statements ?c) \<longrightarrow> t = c_type_of \<tau>"
    proof (intro allI impI)
      fix t assume "C_declaration t x \<in> set (all_c_statements ?c)"
      with from_table have "C_declaration t x \<in> set (generate_declarations ?ds)"
        unfolding flat by auto
      then obtain d' where d': "d' \<in> set ?ds" "decl_name d' = x" "t = c_type_of (decl_type d')"
        by (auto simp: generate_declarations_def)
      then have "Declaration x (decl_type d') (decl_line d') \<in> set ?ds"
        by (cases d') auto
      from declared_types_intro[OF d this] tx d'(3) show "t = c_type_of \<tau>" by simp
    qed
    have decls_only: "\<And>c'. c' \<in> set (generate_declarations ?ds) \<Longrightarrow> \<exists>t y. c' = C_declaration t y"
      by (auto simp: generate_declarations_def)
    have 5: "\<forall>f a. C_scan f x a \<in> set (all_c_statements ?c) \<longrightarrow>
           f = read_format \<tau> \<and> a = (\<tau> \<noteq> TEXT)"
    proof (intro allI impI)
      fix f a assume "C_scan f x a \<in> set (all_c_statements ?c)"
      then have "C_scan f x a \<in> set (all_c_statements cs)"
        unfolding flat using decls_only by fastforce
      with from_table tx show "f = read_format \<tau> \<and> a = (\<tau> \<noteq> TEXT)" by fastforce
    qed
    have 6: "\<forall>f. C_print f x \<in> set (all_c_statements ?c) \<longrightarrow> f = write_format \<tau>"
    proof (intro allI impI)
      fix f assume "C_print f x \<in> set (all_c_statements ?c)"
      then have "C_print f x \<in> set (all_c_statements cs)"
        unfolding flat using decls_only by fastforce
      with from_table tx show "f = write_format \<tau>" by fastforce
    qed
    from 1 2 3 4 5 6
    show "C_declaration (c_type_of \<tau>) x \<in> set ?c \<and>
        (\<forall>l'. Read l' x \<in> set (all_statements (statements p)) \<longrightarrow>
           C_scan (read_format \<tau>) x (\<tau> \<noteq> TEXT) \<in> set (all_c_statements ?c)) \<and>
        (\<forall>l'. Write l' (IdentArg x) \<in> set (all_statements (statements p)) \<longrightarrow>
           C_print (write_format \<tau>) x \<in> set (all_c_statements ?c)) \<and>
        (\<forall>t. C_declaration t x \<in> set (all_c_statements ?c) \<longrightarrow> t = c_type_of \<tau>) \<and>
        (\<forall>f a. C_scan f x a \<in> set (all_c_statements ?c) \<longrightarrow>
           f = read_format \<tau> \<and> a = (\<tau> \<noteq> TEXT)) \<and>
        (\<forall>f. C_print f x \<in> set (all_c_statements ?c) \<longrightarrow> f = write_format \<tau>)"
      by blast
  qed
  then show ?thesis
    unfolding table_formats using g by blast
qed

theorem type_mapping_in_generated_c_witness:
  "snd (analyze promote four_types_program) = [] \<and>
   (\<exists>c. generate (fst (analyze promote four_types_program)) four_types_program = Some c \<and>
        C_declaration C_double ''r'' \<in> set c \<and>
        C_scan ''%lf'' ''r'' True \<in> set (all_c_statements c) \<and>
        C_print ''%f'' ''r'' \<in> set (all_c_statements c) \<and>
        C_declaration C_char_buffer ''t'' \<in> set c \<and>
        C_scan ''%s'' ''t'' False \<in> set (all_c_statements c) \<and>
        C_print ''%s'' ''t'' \<in> set (all_c_statements c))"
proof -
  have v: "snd (analyze promote four_types_program) = []"
    by code_simp
  have m: "Declaration ''r'' REAL 3 \<in> set (declarations four_types_program)"
    "Declaration ''t'' TEXT 4 \<in> set (declarations four_types_program)"
    "Read 8 ''r'' \<in> set (all_statements (statements four_types_program))"
    "Write 13 (IdentArg ''r'') \<in> set (all_statements (statements four_types_program))"
    "Read 9 ''t'' \<in> set (all_statements (statements four_types_program))"
    "Write 16 (IdentArg ''t'') \<in> set (all_statements (statements four_types_program))"
    by (simp_all add: four_types_program_def)
  from type_mapping_in_generated_c[OF v] obtain c where
    c: "generate (fst (analyze promote four_types_program)) four_types_program = Some c"
    and h: "\<And>x \<tau> l. Declaration x \<tau> l \<in> set (declarations four_types_program) \<Longrightarrow>
        C_declaration (case \<tau> of INTEGER \<Rightarrow> C_int | REAL \<Rightarrow> C_double
                                 | TEXT \<Rightarrow> C_char_buffer | BOOLEAN \<Rightarrow> C_int) x \<in> set c \<and>
        (\<forall>l'. Read l' x \<in> set (all_statements (statements four_types_program)) \<longrightarrow>
           C_scan (case \<tau> of INTEGER \<Rightarrow> ''%d'' | REAL \<Rightarrow> ''%lf'' | TEXT \<Rightarrow> ''%s''
                             | BOOLEAN \<Rightarrow> ''%d'') x (\<tau> \<noteq> TEXT) \<in> set (all_c_statements c)) \<and>
        (\<forall>l'. Write l' (IdentArg x) \<in> set (all_statements (statements four_types_program)) \<longrightarrow>
           C_print (case \<tau> of INTEGER \<Rightarrow> ''%d'' | REAL \<Rightarrow> ''%f'' | TEXT \<Rightarrow> ''%s''
                              | BOOLEAN \<Rightarrow> ''%d'') x \<in> set (all_c_statements c))"
    by blast
  from h[OF m(1)] m(3,4) have r: "C_declaration C_double ''r'' \<in> set c"
    "C_scan ''%lf'' ''r'' True \<in> set (all_c_statements c)"
    "C_print ''%f'' ''r'' \<in> set (all_c_statements c)"
    by auto
  from h[OF m(2)] m(5,6) have t: "C_declaration C_char_buffer ''t'' \<in> set c"
    "C_scan ''%s'' ''t'' False \<in> set (all_c_statements c)"
    "C_print ''%s'' ''t'' \<in> set (all_c_statements c)"
    by auto
  from v c r t show ?thesis by blast
qed

end
